theory Spec2Isabelle
  imports Main "HOL-Library.Sublist"
begin

section \<open>Values, errors and promises\<close>

text \<open>
  The wrapper (\<^verbatim>\<open>ModelAccessWrapper\<close>, src/unnamed/part_003) moves plain JavaScript
  values around: document data, queries, updates and key maps. They are modelled as JSON
  trees with one more value for \<^verbatim>\<open>undefined\<close>. Numbers are integers here.
\<close>

datatype jval =
    JUndefined
  | JNull
  | JBool bool
  | JNum int
  | JStr string
  | JArr "jval list"
  | JObj "(string \<times> jval) list"

text \<open>JavaScript truthiness, as \<^verbatim>\<open>if (!data)\<close> reads it.\<close>

fun falsy :: "jval \<Rightarrow> bool" where
  "falsy JUndefined = True"
| "falsy JNull = True"
| "falsy (JBool b) = (\<not> b)"
| "falsy (JNum n) = (n = 0)"
| "falsy (JStr s) = (s = [])"
| "falsy (JArr xs) = False"
| "falsy (JObj kvs) = False"

text \<open>
  \<^verbatim>\<open>XError\<close>: an error code and a message. The codes the wrapper raises or tests
  are constructors of their own; every other code is \<open>OTHER_CODE\<close>.
\<close>

datatype errcode = ACCESS_DENIED | INVALID_ARGUMENT | NOT_FOUND | INTERNAL_ERROR | OTHER_CODE string

datatype xerror = XError (err_code: errcode) (err_message: string)

type_synonym 'a result = "xerror + 'a"

text \<open>
  A promise chain over the store: a computation takes the store's state \<open>'w\<close> and gives a
  rejection or a value together with the state it leaves. A rejection keeps the state
  reached so far: nothing is rolled back.
\<close>

type_synonym ('a, 'w) io = "'w \<Rightarrow> 'a result \<times> 'w"

definition io_return :: "'a \<Rightarrow> ('a, 'w) io" where
  "io_return x w = (Inr x, w)"

definition io_throw :: "xerror \<Rightarrow> ('a, 'w) io" where
  "io_throw e w = (Inl e, w)"

definition io_lift :: "'a result \<Rightarrow> ('a, 'w) io" where
  "io_lift r w = (r, w)"

definition io_then :: "('a, 'w) io \<Rightarrow> ('a \<Rightarrow> ('b, 'w) io) \<Rightarrow> ('b, 'w) io" where
  "io_then m f w = (case m w of (Inl e, w') \<Rightarrow> (Inl e, w') | (Inr x, w') \<Rightarrow> f x w')"

text \<open>\<^verbatim>\<open>promise.then(onFulfilled, onRejected)\<close>\<close>

definition io_then_else ::
  "('a, 'w) io \<Rightarrow> ('a \<Rightarrow> ('b, 'w) io) \<Rightarrow> (xerror \<Rightarrow> ('b, 'w) io) \<Rightarrow> ('b, 'w) io" where
  "io_then_else m f h w = (case m w of (Inl e, w') \<Rightarrow> h e w' | (Inr x, w') \<Rightarrow> f x w')"

text \<open>The same sequencing for steps that do not touch the store.\<close>

definition rthen :: "'a result \<Rightarrow> ('a \<Rightarrow> 'b result) \<Rightarrow> 'b result" where
  "rthen r f = (case r of Inl e \<Rightarrow> Inl e | Inr x \<Rightarrow> f x)"

text \<open>
  \<^verbatim>\<open>stream.each(fn).intoPromise()\<close> (zstreams): the callback runs on one element
  after the other; the first rejection ends the stream and rejects the promise.
\<close>

fun io_each :: "('a \<Rightarrow> ('b, 'w) io) \<Rightarrow> 'a list \<Rightarrow> (unit, 'w) io" where
  "io_each f [] w = (Inr (), w)"
| "io_each f (x # xs) w =
     (case f x w of (Inl e, w') \<Rightarrow> (Inl e, w') | (Inr y, w') \<Rightarrow> io_each f xs w')"

section \<open>Field masks\<close>

text \<open>
  Modelled from the spec: \<^verbatim>\<open>ObjectMask\<close> of the objtools package is not under src/.
  The spec (sections 3 and 9) describes a mask as a recursive Boolean tree over field
  paths: \<open>Included\<close> (\<^verbatim>\<open>true\<close>) includes a path and everything below it,
  \<open>Excluded\<close> nothing, and \<open>Partial\<close> gives a mask to each listed key and one mask to
  every other key (the \<^verbatim>\<open>_\<close> entry; \<open>Excluded\<close> when the object has none). It
  supports adding a field, subtraction and a membership test.
\<close>

datatype mask = Included | Excluded | Partial "(string \<times> mask) list" mask

definition mask_child :: "(string \<times> mask) list \<Rightarrow> mask \<Rightarrow> string \<Rightarrow> mask" where
  "mask_child kvs d k = (case map_of kvs k of Some m \<Rightarrow> m | None \<Rightarrow> d)"

text \<open>A dotted path string split at the dots, as \<^verbatim>\<open>path.split('.')\<close> does.\<close>

fun split_dots :: "string \<Rightarrow> string list" where
  "split_dots [] = [[]]"
| "split_dots (c # cs) =
     (if c = CHR ''.'' then [] # split_dots cs
      else (case split_dots cs of [] \<Rightarrow> [[c]] | x # xs \<Rightarrow> (c # x) # xs))"

text \<open>Membership: is the path (a list of keys) included by the mask?\<close>

fun includes_path :: "mask \<Rightarrow> string list \<Rightarrow> bool" where
  "includes_path Included p = True"
| "includes_path Excluded p = False"
| "includes_path (Partial kvs d) [] = False"
| "includes_path (Partial kvs d) (k # ks) = includes_path (mask_child kvs d k) ks"

definition checkPath :: "mask \<Rightarrow> string \<Rightarrow> bool" where
  "checkPath m path = includes_path m (split_dots path)"

fun alist_set :: "string \<Rightarrow> mask \<Rightarrow> (string \<times> mask) list \<Rightarrow> (string \<times> mask) list" where
  "alist_set k v [] = [(k, v)]"
| "alist_set k v ((k', v') # kvs) =
     (if k = k' then (k, v) # kvs else (k', v') # alist_set k v kvs)"

text \<open>Adding a field: afterwards the path is included.\<close>

fun add_path :: "mask \<Rightarrow> string list \<Rightarrow> mask" where
  "add_path Included p = Included"
| "add_path Excluded [] = Included"
| "add_path (Partial kvs d) [] = Included"
| "add_path Excluded (k # ks) = Partial [(k, add_path Excluded ks)] Excluded"
| "add_path (Partial kvs d) (k # ks) =
     Partial (alist_set k (add_path (mask_child kvs d k) ks) kvs) d"

definition addField :: "mask \<Rightarrow> string \<Rightarrow> mask" where
  "addField m path = add_path m (split_dots path)"

text \<open>
  Subtraction \<open>a - b\<close>: what \<open>b\<close> includes is taken out of \<open>a\<close>. Under a partial \<open>b\<close> the
  result is partial: the keys \<open>b\<close> lists, then the keys only \<open>a\<close> lists, then the rest.
\<close>

fun subtractMasks :: "mask \<Rightarrow> mask \<Rightarrow> mask" where
  "subtractMasks a Included = Excluded"
| "subtractMasks a Excluded = a"
| "subtractMasks Excluded (Partial kvs d) = Excluded"
| "subtractMasks Included (Partial kvs d) =
     Partial (map (\<lambda>km. (fst km, subtractMasks Included (snd km))) kvs)
             (subtractMasks Included d)"
| "subtractMasks (Partial kvs' d') (Partial kvs d) =
     Partial (map (\<lambda>km. (fst km, subtractMasks (mask_child kvs' d' (fst km)) (snd km))) kvs
              @ map (\<lambda>km. (fst km, subtractMasks (snd km) d))
                    (filter (\<lambda>km. fst km \<notin> fst ` set kvs) kvs'))
             (subtractMasks d' d)"

section \<open>The collaborators\<close>

text \<open>
  The schema (common-schema), as \<^verbatim>\<open>traverseSchema\<close> visits it: every subschema with
  its path, in the order of the traversal, and the flags the wrapper reads.
\<close>

record subschema =
  is_private :: bool
  is_protected :: bool

type_synonym schema = "(string \<times> subschema) list"

text \<open>A document of the store: an opaque handle and the data payload.\<close>

record doc =
  handle :: nat
  data :: jval

text \<open>
  A permission set (flexperm) is a list of rules; a grant is the mask a rule grants
  (\<^verbatim>\<open>true\<close> or an object of capabilities and field masks).
\<close>

record rule =
  target :: string
  matching :: jval
  grant :: mask

type_synonym permset = "rule list"

text \<open>
  The per-call parameter bag. \<^verbatim>\<open>fields\<close> is named \<open>fields_p\<close>; the three payloads
  \<^verbatim>\<open>data\<close>, \<^verbatim>\<open>query\<close> and \<^verbatim>\<open>update\<close> carry the prefix \<open>p_\<close>.
\<close>

record params =
  permissions :: "permset option"
  allowPrivateFields :: bool
  overwriteProtected :: bool
  p_data :: jval
  p_query :: jval
  p_update :: jval
  fields_p :: "string list option"
  extraFields :: "string list option"
  requestFields :: "string list option"
  filterFields :: "string list option"
  skipFilterFields :: bool
  skipFilterPermissions :: bool
  filterFieldsMask :: "mask option"
  filterFieldsFunc :: "(jval \<Rightarrow> jval) option"
  filterPermissionsFunc :: "(jval \<Rightarrow> jval) option"

text \<open>
  The packages the wrapper calls are not part of the repository; what they compute is a
  parameter of the model. \<open>libs\<close> holds the functions of objtools, flexperm,
  common-query and common-schema that the wrapper uses. A check that passes returns
  \<open>Inr ()\<close>; one that throws returns the error.
\<close>

record libs =
  \<comment> \<open>objtools\<close>
  getPath :: "jval \<Rightarrow> string \<Rightarrow> jval"
  setPath :: "jval \<Rightarrow> string \<Rightarrow> jval \<Rightarrow> jval"
  setPathTrue :: "mask \<Rightarrow> string \<Rightarrow> mask"
  isScalar :: "jval \<Rightarrow> bool"
  merge :: "jval \<Rightarrow> jval \<Rightarrow> jval"
  deepCopy :: "jval \<Rightarrow> jval"
  filterObject :: "mask \<Rightarrow> jval \<Rightarrow> jval"
  \<comment> \<open>flexperm: \<^verbatim>\<open>PermissionSet\<close> and \<^verbatim>\<open>Grant\<close>\<close>
  getTargetGrant :: "permset \<Rightarrow> string \<Rightarrow> jval \<Rightarrow> mask result"
  check_key :: "mask \<Rightarrow> string \<Rightarrow> unit result"
  check_fields :: "mask \<Rightarrow> string list \<Rightarrow> string \<Rightarrow> unit result"
  check_matches :: "mask \<Rightarrow> (string \<times> jval) list \<Rightarrow> string \<Rightarrow> unit result"
  checkMask :: "mask \<Rightarrow> string \<Rightarrow> jval \<Rightarrow> unit result"
  checkExecuteQuery :: "permset \<Rightarrow> string \<Rightarrow> jval \<Rightarrow> string list \<Rightarrow> unit result"
  getTargetQueryFields :: "permset \<Rightarrow> string list"
  createFilterByMask :: "permset \<Rightarrow> string \<Rightarrow> string \<Rightarrow> string \<Rightarrow> jval \<Rightarrow> jval"
  \<comment> \<open>common-query\<close>
  createQuery :: "jval \<Rightarrow> jval result"
  getExactMatches :: "jval \<Rightarrow> (string \<times> jval) list"
  createUpdate :: "jval \<Rightarrow> bool \<Rightarrow> jval result"
  getUpdatedFields :: "jval \<Rightarrow> string list"
  isFullReplace :: "jval \<Rightarrow> bool"
  apply_update :: "jval \<Rightarrow> bool \<Rightarrow> jval \<Rightarrow> jval result"
  createFromDiff :: "jval \<Rightarrow> jval \<Rightarrow> jval result"
  \<comment> \<open>common-schema\<close>
  filterSchema :: "schema \<Rightarrow> (subschema \<Rightarrow> bool option) \<Rightarrow> schema"
  normalize :: "schema \<Rightarrow> jval \<Rightarrow> jval result"
  createFilterFunc :: "mask \<Rightarrow> jval \<Rightarrow> jval"

text \<open>
  The model (unimodel) over a store in state \<open>'w\<close>. A stream is the finite sequence
  of the documents it yields.
\<close>

record 'w model_ops =
  getName :: string
  getKeys :: "string list option"
  model_schema :: schema
  findOne :: "jval \<Rightarrow> (doc, 'w) io"
  find_docs :: "jval \<Rightarrow> (doc list, 'w) io"
  findStream :: "jval \<Rightarrow> (doc list, 'w) io"
  store_update :: "jval \<Rightarrow> jval \<Rightarrow> (jval, 'w) io"
  store_upsert :: "jval \<Rightarrow> jval \<Rightarrow> (jval, 'w) io"
  store_remove :: "jval \<Rightarrow> (jval, 'w) io"
  create :: "jval \<Rightarrow> doc"
  save :: "doc \<Rightarrow> (doc, 'w) io"
  remove_doc :: "doc \<Rightarrow> (jval, 'w) io"

text \<open>What a call of the wrapper resolves with.\<close>

datatype retval = RVal jval | RDoc doc

section \<open>The wrapper\<close>

record 'w options =
  o_model :: "'w model_ops"
  o_keys :: "string list option"
  o_serialize :: "(doc \<Rightarrow> params \<Rightarrow> jval result) option"
  o_permissionsTarget :: "string option"
  o_allowNoPermissions :: bool
  o_hooks :: "string \<Rightarrow> string list \<Rightarrow> params \<Rightarrow> params result"

record 'w wrapper =
  permissionsTarget :: string
  allowNoPermissions :: bool
  model :: "'w model_ops"
  serialize :: "doc \<Rightarrow> params \<Rightarrow> jval result"
  keyFields :: "string list"
  hasPrivateFields :: bool
  hasProtectedFields :: bool
  publicMask :: mask
  privateMask :: mask
  protectedMask :: mask
  protectedFields :: "string list"
  publicPrivateMask :: mask
  globalPermissions :: permset
  publicSchema :: schema
  hooks :: "string \<Rightarrow> string list \<Rightarrow> params \<Rightarrow> params result"

text \<open>
  The classification the constructor derives (lines 52-71): the state of the five
  variables the \<^verbatim>\<open>onSubschema\<close> callback updates, and the callback itself.
\<close>

record classification =
  c_hasPrivate :: bool
  c_hasProtected :: bool
  c_privateMask :: mask
  c_protectedMask :: mask
  c_protectedFields :: "string list"

definition onSubschema :: "classification \<Rightarrow> string \<times> subschema \<Rightarrow> classification" where
  "onSubschema c ps =
     (let path = fst ps; sub = snd ps;
          c1 = (if is_private sub
                then c\<lparr>c_privateMask := addField (c_privateMask c) path, c_hasPrivate := True\<rparr>
                else c)
      in if is_protected sub
         then c1\<lparr>c_protectedMask := addField (c_protectedMask c1) path,
                 c_hasProtected := True,
                 c_protectedFields := c_protectedFields c1 @ [path]\<rparr>
         else c1)"

definition classify :: "schema \<Rightarrow> classification" where
  "classify sch =
     foldl onSubschema
       \<lparr>c_hasPrivate = False, c_hasProtected = False,
        c_privateMask = Partial [] Excluded, c_protectedMask = Partial [] Excluded,
        c_protectedFields = []\<rparr> sch"

text \<open>The constructor (lines 39-90).\<close>

definition new_wrapper :: "libs \<Rightarrow> 'w options \<Rightarrow> 'w wrapper result" where
  "new_wrapper L opts =
     (let m = o_model opts;
          tgt = (case o_permissionsTarget opts of Some t \<Rightarrow> (if t = [] then getName m else t)
                 | None \<Rightarrow> getName m);
          ser = (case o_serialize opts of Some f \<Rightarrow> f
                 | None \<Rightarrow> (\<lambda>d p. Inr (deepCopy L (data d))));
          kf = (case o_keys opts of Some ks \<Rightarrow> Some ks | None \<Rightarrow> getKeys m)
      in case kf of
           None \<Rightarrow> Inl (XError INTERNAL_ERROR ''No key fields could be found'')
         | Some ks \<Rightarrow>
             if ks = [] then Inl (XError INTERNAL_ERROR ''No key fields could be found'')
             else
               (let c = classify (model_schema m);
                    universal = Partial [] Included;
                    pub = subtractMasks universal (c_privateMask c)
                in Inr \<lparr>permissionsTarget = tgt,
                        allowNoPermissions = o_allowNoPermissions opts,
                        model = m,
                        serialize = ser,
                        keyFields = ks,
                        hasPrivateFields = c_hasPrivate c,
                        hasProtectedFields = c_hasProtected c,
                        publicMask = pub,
                        privateMask = c_privateMask c,
                        protectedMask = c_protectedMask c,
                        protectedFields = c_protectedFields c,
                        publicPrivateMask = universal,
                        globalPermissions =
                          [\<lparr>target = ''global'', matching = JObj [],
                            grant = Partial [(''global'', Included), (''readMask'', pub),
                                             (''writeMask'', pub)] Excluded\<rparr>],
                        publicSchema =
                          filterSchema L (model_schema m)
                            (\<lambda>sub. if is_private sub then Some False else None),
                        hooks = o_hooks opts\<rparr>))"

section \<open>Reading\<close>

text \<open>\<^verbatim>\<open>_.union\<close> (lodash): the values of the arrays, each once, in the order of first occurrence.\<close>

definition lodash_union :: "string list list \<Rightarrow> string list" where
  "lodash_union xss = rev (remdups (rev (concat xss)))"

text \<open>\<^verbatim>\<open>obj[key] = v\<close> on a plain object: an existing key keeps its place.\<close>

fun jobj_set :: "string \<Rightarrow> jval \<Rightarrow> (string \<times> jval) list \<Rightarrow> (string \<times> jval) list" where
  "jobj_set k v [] = [(k, v)]"
| "jobj_set k v ((k', v') # kvs) =
     (if k = k' then (k, v) # kvs else (k', v') # jobj_set k v kvs)"

text \<open>\<^verbatim>\<open>_preprocessParams\<close> (lines 152-199).\<close>

definition preprocessParams :: "libs \<Rightarrow> 'w wrapper \<Rightarrow> params \<Rightarrow> string \<Rightarrow> params result" where
  "preprocessParams L W params0 method_name =
     rthen (hooks W ''preprocess-params'' [method_name] params0) (\<lambda>params.
       if permissions params = None \<and> \<not> allowNoPermissions W
       then Inl (XError INVALID_ARGUMENT ''No permissions supplied'')
       else
         (let params1 =
                (case (requestFields params, fields_p params) of
                   (None, Some fs) \<Rightarrow>
                     (let permissionsFields =
                            (case permissions params of
                               Some ps \<Rightarrow> getTargetQueryFields L ps | None \<Rightarrow> [])
                      in params\<lparr>requestFields :=
                           Some (lodash_union
                                  [fs,
                                   (case extraFields params of Some ef \<Rightarrow> ef | None \<Rightarrow> []),
                                   permissionsFields])\<rparr>)
                 | _ \<Rightarrow> params);
              params2 =
                (if fields_p params1 \<noteq> None \<and> filterFields params1 = None
                 then params1\<lparr>filterFields := fields_p params1\<rparr> else params1);
              params3 =
                (if requestFields params2 \<noteq> None
                 then params2\<lparr>fields_p := requestFields params2\<rparr> else params2);
              params4 =
                (case filterFields params3 of
                   Some ff \<Rightarrow>
                     (if \<not> skipFilterFields params3
                      then (let m = foldl (setPathTrue L) (Partial [] Excluded) ff
                            in params3\<lparr>filterFieldsMask := Some m,
                                       filterFieldsFunc := Some (createFilterFunc L m)\<rparr>)
                      else params3)
                 | None \<Rightarrow> params3);
              params5 =
                (case permissions params4 of
                   Some ps \<Rightarrow>
                     (if \<not> skipFilterPermissions params4
                      then params4\<lparr>filterPermissionsFunc :=
                             Some (createFilterByMask L ps (permissionsTarget W)
                                     ''read'' ''readMask'')\<rparr>
                      else params4)
                 | None \<Rightarrow> params4)
          in Inr params5))"

text \<open>
  \<^verbatim>\<open>prepareResultObject\<close> (lines 102-133). \<open>serialized\<close> is its first half
  (lines 106-112): the private fields dropped from the document in memory, then the
  serializer. \<open>None\<close> is the \<^verbatim>\<open>null\<close> it resolves with when the serializer yields
  a falsy value; otherwise the pair \<^verbatim>\<open>{ data, doc }\<close>.
\<close>

definition serialized :: "libs \<Rightarrow> 'w wrapper \<Rightarrow> doc \<Rightarrow> params \<Rightarrow> (doc \<times> jval) result" where
  "serialized L W d params =
     rthen (if \<not> allowPrivateFields params \<and> hasPrivateFields W
            then rthen (normalize L (publicSchema W) (data d)) (\<lambda>nd. Inr (d\<lparr>data := nd\<rparr>))
            else Inr d) (\<lambda>d1.
     rthen (serialize W d1 params) (\<lambda>dat. Inr (d1, dat)))"

definition prepareResultObject ::
  "libs \<Rightarrow> 'w wrapper \<Rightarrow> doc \<Rightarrow> params \<Rightarrow> (jval \<times> doc) option result" where
  "prepareResultObject L W d params =
     rthen (serialized L W d params) (\<lambda>ds.
       (let d1 = fst ds; dat = snd ds in
       if falsy dat then Inr None
       else
         rthen (case filterPermissionsFunc params of
                  Some f \<Rightarrow>
                    (let dat1 = f dat
                     in if falsy dat1
                        then Inl (XError ACCESS_DENIED ''No access to data fields'')
                        else Inr dat1)
                | None \<Rightarrow> Inr dat) (\<lambda>dat1.
         rthen (case filterFieldsFunc params of
                  Some f \<Rightarrow>
                    (let dat2 = f dat1
                     in if falsy dat2
                        then Inl (XError ACCESS_DENIED ''No access to any requested fields'')
                        else Inr dat2)
                | None \<Rightarrow> Inr dat1) (\<lambda>dat2.
         Inr (Some (dat2, d1))))))"

text \<open>
  The body of \<^verbatim>\<open>query\<close> after \<^verbatim>\<open>model.find\<close> (lines 292-311):
  \<^verbatim>\<open>pasync.mapSeries\<close> prepares one document after the other; the result carries the
  array and the counter \<^verbatim>\<open>numFilteredDocs\<close>.
\<close>

fun mapSeries_prepare ::
  "libs \<Rightarrow> 'w wrapper \<Rightarrow> params \<Rightarrow> doc list \<Rightarrow> nat \<Rightarrow> ((jval \<times> doc) option list \<times> nat) result" where
  "mapSeries_prepare L W params [] numFilteredDocs = Inr ([], numFilteredDocs)"
| "mapSeries_prepare L W params (d # ds) numFilteredDocs =
     (case prepareResultObject L W d params of
        Inl err \<Rightarrow>
          (if err_code err = ACCESS_DENIED
           then rthen (mapSeries_prepare L W params ds (numFilteredDocs + 1))
                  (\<lambda>rn. Inr (None # fst rn, snd rn))
           else Inl err)
      | Inr r \<Rightarrow>
          rthen (mapSeries_prepare L W params ds numFilteredDocs)
            (\<lambda>rn. Inr (r # fst rn, snd rn)))"

definition query_results ::
  "libs \<Rightarrow> 'w wrapper \<Rightarrow> params \<Rightarrow> doc list \<Rightarrow> (jval \<times> doc) option list result" where
  "query_results L W params docs =
     rthen (mapSeries_prepare L W params docs 0) (\<lambda>rn.
       if snd rn \<ge> length docs \<and> length docs \<noteq> 0
       then Inl (XError ACCESS_DENIED ''All results filtered.'')
       else Inr (fst rn))"

text \<open>
  \<^verbatim>\<open>query\<close> up to \<^verbatim>\<open>model.find\<close> (lines 264-291): the parameters as
  preprocessed and the documents found.
\<close>

definition query_find :: "libs \<Rightarrow> 'w wrapper \<Rightarrow> params \<Rightarrow> (params \<times> doc list, 'w) io" where
  "query_find L W params0 =
     io_then (io_lift (preprocessParams L W params0 ''query'')) (\<lambda>params1.
     io_then (io_lift (hooks W ''pre-query'' [] params1)) (\<lambda>params.
     io_then (io_lift (case permissions params of
                         Some ps \<Rightarrow>
                           checkExecuteQuery L ps (permissionsTarget W) (p_query params) [''query'']
                       | None \<Rightarrow> Inr ())) (\<lambda>u1.
     io_then (io_lift (if \<not> allowPrivateFields params \<and> hasPrivateFields W
                       then checkExecuteQuery L (globalPermissions W) ''global''
                              (p_query params) [''global'']
                       else Inr ())) (\<lambda>u2.
     io_then (find_docs (model W) (p_query params)) (\<lambda>docs.
     io_return (params, docs))))))"

text \<open>\<^verbatim>\<open>query\<close> (lines 264-313).\<close>

definition query ::
  "libs \<Rightarrow> 'w wrapper \<Rightarrow> params \<Rightarrow> ((jval \<times> doc) option list, 'w) io" where
  "query L W params0 =
     io_then (query_find L W params0) (\<lambda>pd.
     io_lift (query_results L W (fst pd) (snd pd)))"

section \<open>Writing one document: put\<close>

text \<open>
  \<^verbatim>\<open>_checkDiffPermissions\<close> (lines 632-652). \<^verbatim>\<open>_.pull\<close> and \<^verbatim>\<open>_.pullAll\<close>
  remove every occurrence of the listed values.
\<close>

definition checkDiffPermissions ::
  "libs \<Rightarrow> 'w wrapper \<Rightarrow> permset \<Rightarrow> doc \<Rightarrow> jval \<Rightarrow> bool \<Rightarrow> unit result" where
  "checkDiffPermissions L W perms d dat overwrite =
     rthen (getTargetGrant L perms (permissionsTarget W) dat) (\<lambda>g.
     rthen (createFromDiff L (data d) dat) (\<lambda>patch.
     rthen (createUpdate L patch False) (\<lambda>u.
     rthen (let fields = removeAll ''_id'' (getUpdatedFields L u)
            in if overwrite
               then rthen (check_key L g ''overwriteProtected'') (\<lambda>x. Inr fields)
               else if hasProtectedFields W
               then (if list_ex (\<lambda>field. getPath L dat field \<noteq> JUndefined) (protectedFields W)
                     then Inl (XError INVALID_ARGUMENT ''Target document contains protected fields.'')
                     else Inr (filter (\<lambda>f. f \<notin> set (protectedFields W)) fields))
               else Inr fields) (\<lambda>fields.
     rthen (check_key L g ''write'') (\<lambda>x.
     check_fields L g fields ''writeMask.'')))))"

text \<open>The key loop of \<^verbatim>\<open>put\<close> (lines 546-556).\<close>

fun extract_keys ::
  "libs \<Rightarrow> jval \<Rightarrow> string list \<Rightarrow> (string \<times> jval) list \<Rightarrow> (string \<times> jval) list result" where
  "extract_keys L dat [] keys = Inr keys"
| "extract_keys L dat (field # fs) keys =
     (let v = getPath L dat field
      in if v = JUndefined \<or> v = JNull
         then Inl (XError INVALID_ARGUMENT (''Missing document key '' @ field))
         else if \<not> isScalar L v
         then Inl (XError INVALID_ARGUMENT (field @ '' key must be a scalar''))
         else extract_keys L dat fs (jobj_set field v keys))"

text \<open>
  Lines 532-556: strip the protected fields, check the global write mask, read the keys.
  The result is the stripped data and the key map.
\<close>

definition put_prepare ::
  "libs \<Rightarrow> 'w wrapper \<Rightarrow> params \<Rightarrow> (jval \<times> (string \<times> jval) list) result" where
  "put_prepare L W params =
     (let dat = (if hasProtectedFields W \<and> \<not> overwriteProtected params
                 then filterObject L (subtractMasks (publicPrivateMask W) (protectedMask W))
                        (p_data params)
                 else p_data params)
      in rthen (if hasPrivateFields W \<and> \<not> allowPrivateFields params
                then rthen (getTargetGrant L (globalPermissions W) ''global'' dat)
                       (\<lambda>g. checkMask L g ''writeMask'' dat)
                else Inr ()) (\<lambda>x.
         rthen (extract_keys L dat (keyFields W) []) (\<lambda>keys. Inr (dat, keys))))"

text \<open>\<^verbatim>\<open>x || {}\<close>\<close>

definition or_empty :: "jval \<Rightarrow> jval" where
  "or_empty v = (if falsy v then JObj [] else v)"

text \<open>
  The data that \<^verbatim>\<open>put\<close> writes over an existing document (lines 565-577): the
  existing private and protected fields merged onto the incoming data.
\<close>

definition put_merge :: "libs \<Rightarrow> 'w wrapper \<Rightarrow> params \<Rightarrow> doc \<Rightarrow> jval \<Rightarrow> jval" where
  "put_merge L W params d dat =
     (let dat1 = (if hasPrivateFields W \<and> \<not> allowPrivateFields params
                  then merge L dat (or_empty (filterObject L (privateMask W) (data d)))
                  else dat)
      in if hasProtectedFields W \<and> \<not> overwriteProtected params
         then merge L dat1 (or_empty (filterObject L (protectedMask W) (data d)))
         else dat1)"

text \<open>
  The callback for a document that \<^verbatim>\<open>findOne\<close> found (lines 560-587). The variable
  \<^verbatim>\<open>data\<close> is merged in place and the rejection handler below reads it, so the
  result carries its final value too.
\<close>

definition put_found ::
  "libs \<Rightarrow> 'w wrapper \<Rightarrow> params \<Rightarrow> doc \<Rightarrow> jval \<Rightarrow> doc result \<times> jval" where
  "put_found L W params d dat =
     (case (case permissions params of
              Some ps \<Rightarrow> checkDiffPermissions L W ps d dat (overwriteProtected params)
            | None \<Rightarrow> Inr ()) of
        Inl e \<Rightarrow> (Inl e, dat)
      | Inr x \<Rightarrow>
          (let dat2 = put_merge L W params d dat
           in (rthen (createUpdate L dat2 True) (\<lambda>u.
                 if \<not> isFullReplace L u
                 then Inl (XError INVALID_ARGUMENT ''put() cannot use update operators'')
                 else rthen (apply_update L u True (data d)) (\<lambda>nd. Inr (d\<lparr>data := nd\<rparr>))),
               dat2)))"

text \<open>The rejection handler (lines 588-600): only NOT_FOUND selects the insert.\<close>

definition put_not_found ::
  "libs \<Rightarrow> 'w wrapper \<Rightarrow> params \<Rightarrow> jval \<Rightarrow> xerror \<Rightarrow> doc result" where
  "put_not_found L W params dat err =
     (if err_code err \<noteq> NOT_FOUND then Inl err
      else rthen (case permissions params of
                    Some ps \<Rightarrow>
                      checkDiffPermissions L W ps (create (model W) JUndefined) dat
                        (overwriteProtected params)
                  | None \<Rightarrow> Inr ()) (\<lambda>x.
           Inr (create (model W) dat)))"

text \<open>Lines 558-601: find, authorize, replace or create, save.\<close>

definition put_store ::
  "libs \<Rightarrow> 'w wrapper \<Rightarrow> params \<Rightarrow> jval \<Rightarrow> (string \<times> jval) list \<Rightarrow> (doc, 'w) io" where
  "put_store L W params dat keys =
     io_then
       (\<lambda>w. case findOne (model W) (JObj keys) w of
               (Inr d, w') \<Rightarrow>
                 (case put_found L W params d dat of
                    (Inr d', dat') \<Rightarrow> (Inr d', w')
                  | (Inl err, dat') \<Rightarrow> (put_not_found L W params dat' err, w'))
             | (Inl err, w') \<Rightarrow> (put_not_found L W params dat err, w'))
       (\<lambda>d. save (model W) d)"

text \<open>Lines 603-613: the keys of the saved document.\<close>

definition put_result :: "libs \<Rightarrow> 'w wrapper \<Rightarrow> (string \<times> jval) list \<Rightarrow> doc \<Rightarrow> jval" where
  "put_result L W keys saved =
     JObj [(''keys'',
            JObj (if \<not> falsy (data saved)
                  then foldl (\<lambda>ks field. jobj_set field (getPath L (data saved) field) ks)
                         [] (keyFields W)
                  else keys))]"

text \<open>
  \<^verbatim>\<open>put\<close> (lines 523-615); \<open>put_begin\<close> is the part before the store is read
  (lines 530-556).
\<close>

definition put_begin ::
  "libs \<Rightarrow> 'w wrapper \<Rightarrow> params \<Rightarrow> (params \<times> jval \<times> (string \<times> jval) list) result" where
  "put_begin L W params0 =
     rthen (preprocessParams L W params0 ''put'') (\<lambda>params1.
     rthen (hooks W ''pre-put'' [] params1) (\<lambda>params.
     rthen (put_prepare L W params) (\<lambda>dk. Inr (params, fst dk, snd dk))))"

definition put :: "libs \<Rightarrow> 'w wrapper \<Rightarrow> params \<Rightarrow> (jval, 'w) io" where
  "put L W params0 =
     io_then (io_lift (put_begin L W params0)) (\<lambda>pdk.
     io_then (put_store L W (fst pdk) (fst (snd pdk)) (snd (snd pdk))) (\<lambda>saved.
     io_return (put_result L W (snd (snd pdk)) saved)))"

section \<open>Writing by query: upsert, update, remove\<close>

text \<open>The exact matches of the query as one object (lines 711-715, 839-843, 931-935).\<close>

definition exactMatchObj :: "libs \<Rightarrow> jval \<Rightarrow> jval" where
  "exactMatchObj L q =
     foldl (\<lambda>obj fv. setPath L obj (fst fv) (snd fv)) (JObj []) (getExactMatches L q)"

text \<open>Lines 684-689 and 813-818: does the update touch a protected field?\<close>

definition containsProtected :: "'w wrapper \<Rightarrow> string list \<Rightarrow> bool" where
  "containsProtected W updatedFields =
     list_ex (\<lambda>field. field \<in> set updatedFields) (protectedFields W)"

text \<open>
  The callback of the update loops (lines 761-766 and 880-885): a grant from the
  document's own data, the two checks and the update (\<open>update_doc\<close>), then the save.
\<close>

definition update_doc ::
  "libs \<Rightarrow> 'w wrapper \<Rightarrow> permset \<Rightarrow> string list \<Rightarrow> jval \<Rightarrow> doc \<Rightarrow> doc result" where
  "update_doc L W perms updatedFields u d =
     rthen (getTargetGrant L perms (permissionsTarget W) (data d)) (\<lambda>g.
     rthen (check_key L g ''write'') (\<lambda>x.
     rthen (check_fields L g updatedFields ''writeMask.'') (\<lambda>y.
     rthen (apply_update L u False (data d)) (\<lambda>nd.
     Inr (d\<lparr>data := nd\<rparr>)))))"

definition update_each ::
  "libs \<Rightarrow> 'w wrapper \<Rightarrow> permset \<Rightarrow> string list \<Rightarrow> jval \<Rightarrow> doc \<Rightarrow> (doc, 'w) io" where
  "update_each L W perms updatedFields u d =
     io_then (io_lift (update_doc L W perms updatedFields u d)) (\<lambda>d'. save (model W) d')"

text \<open>\<^verbatim>\<open>_updateLoop\<close> (lines 877-887).\<close>

definition updateLoop ::
  "libs \<Rightarrow> 'w wrapper \<Rightarrow> jval \<Rightarrow> jval \<Rightarrow> permset \<Rightarrow> (retval, 'w) io" where
  "updateLoop L W q u perms =
     io_then (findStream (model W) q) (\<lambda>docs.
     io_then (io_each (update_each L W perms (getUpdatedFields L u) u) docs) (\<lambda>x.
     io_return (RVal JUndefined)))"

text \<open>\<^verbatim>\<open>_upsertLoop\<close> (lines 756-783).\<close>

definition upsertLoop ::
  "libs \<Rightarrow> 'w wrapper \<Rightarrow> jval \<Rightarrow> jval \<Rightarrow> permset \<Rightarrow> (retval, 'w) io" where
  "upsertLoop L W q u perms =
     (let updatedFields = getUpdatedFields L u
      in io_then_else (findOne (model W) q)
           (\<lambda>found.
              io_then (findStream (model W) q) (\<lambda>docs.
              io_then (io_each (update_each L W perms updatedFields u) docs) (\<lambda>x.
              io_return (RVal JUndefined))))
           (\<lambda>err.
              if err_code err \<noteq> NOT_FOUND then io_throw err
              else
                io_then (io_lift
                  (rthen (apply_update L u False (exactMatchObj L q)) (\<lambda>dataToInsert.
                   rthen (getTargetGrant L perms (permissionsTarget W) dataToInsert) (\<lambda>g.
                   rthen (check_key L g ''write'') (\<lambda>x.
                   rthen (check_fields L g updatedFields ''writeMask.'') (\<lambda>y.
                   Inr (create (model W) dataToInsert))))))) (\<lambda>d.
                io_then (save (model W) d) (\<lambda>saved.
                io_return (RDoc saved)))))"

text \<open>
  The checks of \<^verbatim>\<open>upsert\<close> between the protected-field test and the
  \<^verbatim>\<open>try\<close> block (lines 693-724); the result is the grant resolved from the exact
  matches.
\<close>

definition upsert_grant :: "libs \<Rightarrow> 'w wrapper \<Rightarrow> params \<Rightarrow> permset \<Rightarrow> jval \<Rightarrow> mask result" where
  "upsert_grant L W params perms q =
     rthen (checkExecuteQuery L perms (permissionsTarget W) q [''query'']) (\<lambda>x.
     rthen (if hasPrivateFields W \<and> \<not> allowPrivateFields params
            then checkExecuteQuery L (globalPermissions W) ''global'' q [''global'']
            else Inr ()) (\<lambda>y.
     rthen (getTargetGrant L perms (permissionsTarget W) (exactMatchObj L q)) (\<lambda>g.
     rthen (if overwriteProtected params then check_key L g ''overwriteProtected''
            else Inr ()) (\<lambda>z.
     rthen (if hasPrivateFields W \<and> \<not> allowPrivateFields params
            then rthen (getTargetGrant L (globalPermissions W) ''global'' (exactMatchObj L q))
                   (\<lambda>gg. check_matches L gg (getExactMatches L q) ''writeMask.'')
            else Inr ()) (\<lambda>v.
     Inr g)))))"

text \<open>The \<^verbatim>\<open>try\<close> block of \<^verbatim>\<open>upsert\<close> (lines 728-732).\<close>

definition upsert_bulk_check :: "libs \<Rightarrow> mask \<Rightarrow> jval \<Rightarrow> jval \<Rightarrow> unit result" where
  "upsert_bulk_check L g q u =
     (let fields = lodash_union [map fst (getExactMatches L q), getUpdatedFields L u]
      in rthen (check_key L g ''write'') (\<lambda>x. check_fields L g fields ''writeMask.''))"

text \<open>Lines 728-745: the \<^verbatim>\<open>try\<close> block, its handler and the delegation.\<close>

definition upsert_bulk ::
  "libs \<Rightarrow> 'w wrapper \<Rightarrow> permset \<Rightarrow> mask \<Rightarrow> jval \<Rightarrow> jval \<Rightarrow> (retval, 'w) io" where
  "upsert_bulk L W perms g q u =
     (case upsert_bulk_check L g q u of
        Inl ex \<Rightarrow>
          (if err_code ex = ACCESS_DENIED then upsertLoop L W q u perms else io_throw ex)
      | Inr x \<Rightarrow> io_then (store_upsert (model W) q u) (\<lambda>r. io_return (RVal r)))"

text \<open>Lines 673-689 and 804-818: parse the query and the update, refuse protected fields.\<close>

definition parse_update_call :: "libs \<Rightarrow> 'w wrapper \<Rightarrow> params \<Rightarrow> (jval \<times> jval) result" where
  "parse_update_call L W params =
     rthen (createQuery L (p_query params)) (\<lambda>q.
     rthen (createUpdate L (p_update params) False) (\<lambda>u.
       if hasProtectedFields W \<and> \<not> overwriteProtected params
          \<and> containsProtected W (getUpdatedFields L u)
       then Inl (XError INVALID_ARGUMENT ''Target document contains protected fields.'')
       else Inr (q, u)))"

text \<open>
  The two steps before that (lines 670-671 and 801-802): the parameters are preprocessed
  under the name of the operation and its hook runs.
\<close>

definition begin_call :: "libs \<Rightarrow> 'w wrapper \<Rightarrow> params \<Rightarrow> string \<Rightarrow> params result" where
  "begin_call L W params0 operation =
     rthen (preprocessParams L W params0 operation) (\<lambda>params1.
     hooks W (''pre-'' @ operation) [] params1)"

text \<open>\<^verbatim>\<open>upsert\<close> (lines 665-748).\<close>

definition upsert :: "libs \<Rightarrow> 'w wrapper \<Rightarrow> params \<Rightarrow> (retval, 'w) io" where
  "upsert L W params0 =
     io_then (io_lift (begin_call L W params0 ''upsert'')) (\<lambda>params.
     io_then (io_lift (parse_update_call L W params)) (\<lambda>qu.
       case permissions params of
         Some perms \<Rightarrow>
           io_then (io_lift (upsert_grant L W params perms (fst qu))) (\<lambda>g.
           upsert_bulk L W perms g (fst qu) (snd qu))
       | None \<Rightarrow>
           io_then (store_upsert (model W) (fst qu) (snd qu)) (\<lambda>r. io_return (RVal r))))"

text \<open>The checks of \<^verbatim>\<open>update\<close> before its \<^verbatim>\<open>try\<close> block (lines 821-849).\<close>

definition update_grant :: "libs \<Rightarrow> 'w wrapper \<Rightarrow> params \<Rightarrow> permset \<Rightarrow> jval \<Rightarrow> mask result" where
  "update_grant L W params perms q =
     rthen (checkExecuteQuery L perms (permissionsTarget W) q [''query'']) (\<lambda>x.
     rthen (if hasPrivateFields W \<and> \<not> allowPrivateFields params
            then checkExecuteQuery L (globalPermissions W) ''global'' q [''global'']
            else Inr ()) (\<lambda>y.
     rthen (getTargetGrant L perms (permissionsTarget W) (exactMatchObj L q)) (\<lambda>g.
     rthen (if overwriteProtected params then check_key L g ''overwriteProtected''
            else Inr ()) (\<lambda>z.
     Inr g))))"

text \<open>The \<^verbatim>\<open>try\<close> block of \<^verbatim>\<open>update\<close> (lines 851-859).\<close>

definition update_bulk_check ::
  "libs \<Rightarrow> 'w wrapper \<Rightarrow> params \<Rightarrow> mask \<Rightarrow> jval \<Rightarrow> jval \<Rightarrow> unit result" where
  "update_bulk_check L W params g q u =
     rthen (check_key L g ''write'') (\<lambda>x.
     rthen (check_fields L g (getUpdatedFields L u) ''writeMask.'') (\<lambda>y.
       if hasPrivateFields W \<and> \<not> allowPrivateFields params
       then rthen (getTargetGrant L (globalPermissions W) ''global'' (exactMatchObj L q))
              (\<lambda>gg. check_matches L gg (getExactMatches L q) ''writeMask.'')
       else Inr ()))"

text \<open>Lines 851-872.\<close>

definition update_bulk ::
  "libs \<Rightarrow> 'w wrapper \<Rightarrow> params \<Rightarrow> permset \<Rightarrow> mask \<Rightarrow> jval \<Rightarrow> jval \<Rightarrow> (retval, 'w) io" where
  "update_bulk L W params perms g q u =
     (case update_bulk_check L W params g q u of
        Inl ex \<Rightarrow>
          (if err_code ex = ACCESS_DENIED then updateLoop L W q u perms else io_throw ex)
      | Inr x \<Rightarrow> io_then (store_update (model W) q u) (\<lambda>r. io_return (RVal r)))"

text \<open>\<^verbatim>\<open>update\<close> (lines 796-875).\<close>

definition update :: "libs \<Rightarrow> 'w wrapper \<Rightarrow> params \<Rightarrow> (retval, 'w) io" where
  "update L W params0 =
     io_then (io_lift (begin_call L W params0 ''update'')) (\<lambda>params.
     io_then (io_lift (parse_update_call L W params)) (\<lambda>qu.
       case permissions params of
         Some perms \<Rightarrow>
           io_then (io_lift (update_grant L W params perms (fst qu))) (\<lambda>g.
           update_bulk L W params perms g (fst qu) (snd qu))
       | None \<Rightarrow>
           io_then (store_update (model W) (fst qu) (snd qu)) (\<lambda>r. io_return (RVal r))))"

text \<open>
  The callback of \<^verbatim>\<open>_removeLoop\<close> (lines 962-966): the grant check
  (\<open>remove_allowed\<close>), then the removal; and the loop (lines 960-967).
\<close>

definition remove_allowed :: "libs \<Rightarrow> 'w wrapper \<Rightarrow> permset \<Rightarrow> doc \<Rightarrow> unit result" where
  "remove_allowed L W perms d =
     rthen (getTargetGrant L perms (permissionsTarget W) (data d)) (\<lambda>g.
     check_key L g ''delete'')"

definition remove_each :: "libs \<Rightarrow> 'w wrapper \<Rightarrow> permset \<Rightarrow> doc \<Rightarrow> (jval, 'w) io" where
  "remove_each L W perms d =
     io_then (io_lift (remove_allowed L W perms d)) (\<lambda>x. remove_doc (model W) d)"

definition removeLoop :: "libs \<Rightarrow> 'w wrapper \<Rightarrow> jval \<Rightarrow> permset \<Rightarrow> (retval, 'w) io" where
  "removeLoop L W q perms =
     io_then (findStream (model W) q) (\<lambda>docs.
     io_then (io_each (remove_each L W perms) docs) (\<lambda>x.
     io_return (RVal JUndefined)))"

text \<open>The checks of \<^verbatim>\<open>remove\<close> before its \<^verbatim>\<open>try\<close> block (lines 912-927).\<close>

definition remove_query_checks :: "libs \<Rightarrow> 'w wrapper \<Rightarrow> params \<Rightarrow> permset \<Rightarrow> jval \<Rightarrow> unit result" where
  "remove_query_checks L W params perms q =
     rthen (checkExecuteQuery L perms (permissionsTarget W) q [''query'']) (\<lambda>x.
     if \<not> allowPrivateFields params \<and> hasPrivateFields W
     then checkExecuteQuery L (globalPermissions W) ''global'' q [''global'']
     else Inr ())"

text \<open>The \<^verbatim>\<open>try\<close> block of \<^verbatim>\<open>remove\<close> (lines 929-942).\<close>

definition remove_bulk_check :: "libs \<Rightarrow> 'w wrapper \<Rightarrow> permset \<Rightarrow> jval \<Rightarrow> unit result" where
  "remove_bulk_check L W perms q =
     rthen (getTargetGrant L perms (permissionsTarget W) (exactMatchObj L q)) (\<lambda>g.
     check_key L g ''delete'')"

text \<open>Lines 929-955.\<close>

definition remove_bulk :: "libs \<Rightarrow> 'w wrapper \<Rightarrow> permset \<Rightarrow> jval \<Rightarrow> (retval, 'w) io" where
  "remove_bulk L W perms q =
     (case remove_bulk_check L W perms q of
        Inl ex \<Rightarrow>
          (if err_code ex = ACCESS_DENIED then removeLoop L W q perms else io_throw ex)
      | Inr x \<Rightarrow> io_then (store_remove (model W) q) (\<lambda>r. io_return (RVal r)))"

text \<open>\<^verbatim>\<open>remove\<close> (lines 899-958).\<close>

definition remove :: "libs \<Rightarrow> 'w wrapper \<Rightarrow> params \<Rightarrow> (retval, 'w) io" where
  "remove L W params0 =
     io_then (io_lift (begin_call L W params0 ''remove'')) (\<lambda>params.
     io_then (io_lift (createQuery L (p_query params))) (\<lambda>q.
       case permissions params of
         Some perms \<Rightarrow>
           io_then (io_lift (remove_query_checks L W params perms q)) (\<lambda>x.
           remove_bulk L W perms q)
       | None \<Rightarrow> io_then (store_remove (model W) q) (\<lambda>r. io_return (RVal r))))"

section \<open>A model that records its calls\<close>

text \<open>
  To state which calls a run of the wrapper makes on the model, a model is wrapped so
  that the store's state carries the list of the calls made so far, in order.
\<close>

datatype call =
    FindOne_call jval
  | Find_call jval
  | FindStream_call jval
  | Update_call jval jval
  | Upsert_call jval jval
  | Remove_call jval
  | Save_call doc
  | RemoveDoc_call doc

definition logging :: "call \<Rightarrow> ('a, 'w) io \<Rightarrow> ('a, 'w \<times> call list) io" where
  "logging c m wl = (case m (fst wl) of (r, w') \<Rightarrow> (r, (w', snd wl @ [c])))"

definition logged :: "'w model_ops \<Rightarrow> ('w \<times> call list) model_ops" where
  "logged M =
     \<lparr>getName = getName M,
      getKeys = getKeys M,
      model_schema = model_schema M,
      findOne = (\<lambda>q. logging (FindOne_call q) (findOne M q)),
      find_docs = (\<lambda>q. logging (Find_call q) (find_docs M q)),
      findStream = (\<lambda>q. logging (FindStream_call q) (findStream M q)),
      store_update = (\<lambda>q u. logging (Update_call q u) (store_update M q u)),
      store_upsert = (\<lambda>q u. logging (Upsert_call q u) (store_upsert M q u)),
      store_remove = (\<lambda>q. logging (Remove_call q) (store_remove M q)),
      create = create M,
      save = (\<lambda>d. logging (Save_call d) (save M d)),
      remove_doc = (\<lambda>d. logging (RemoveDoc_call d) (remove_doc M d))\<rparr>"

text \<open>The wrapper over the recording model; nothing else changes.\<close>

definition recording :: "'w wrapper \<Rightarrow> ('w \<times> call list) wrapper" where
  "recording W =
     \<lparr>permissionsTarget = permissionsTarget W,
      allowNoPermissions = allowNoPermissions W,
      model = logged (model W),
      serialize = serialize W,
      keyFields = keyFields W,
      hasPrivateFields = hasPrivateFields W,
      hasProtectedFields = hasProtectedFields W,
      publicMask = publicMask W,
      privateMask = privateMask W,
      protectedMask = protectedMask W,
      protectedFields = protectedFields W,
      publicPrivateMask = publicPrivateMask W,
      globalPermissions = globalPermissions W,
      publicSchema = publicSchema W,
      hooks = hooks W\<rparr>"

text \<open>
  How the preparation of one result ended: denied (an ACCESS_DENIED error), failed with
  another error, or the entry it contributes to the result array.
\<close>

definition denied :: "'a result \<Rightarrow> bool" where
  "denied r = (case r of Inl e \<Rightarrow> err_code e = ACCESS_DENIED | Inr x \<Rightarrow> False)"

definition failed_otherwise :: "'a result \<Rightarrow> bool" where
  "failed_otherwise r = (case r of Inl e \<Rightarrow> err_code e \<noteq> ACCESS_DENIED | Inr x \<Rightarrow> False)"

definition slot :: "'a option result \<Rightarrow> 'a option" where
  "slot r = (case r of Inl e \<Rightarrow> None | Inr x \<Rightarrow> x)"

text \<open>
  A computation over the recording model \<open>appends\<close> calls of a kind when it only adds
  calls of that kind to the list. The calls on single documents are those of the
  fallback loops.
\<close>

definition appends :: "(call \<Rightarrow> bool) \<Rightarrow> ('a, 'w \<times> call list) io \<Rightarrow> bool" where
  "appends P m = (\<forall>wl. \<exists>cs. snd (snd (m wl)) = snd wl @ cs \<and> list_all P cs)"

definition per_document :: "call \<Rightarrow> bool" where
  "per_document c =
     (case c of FindOne_call q \<Rightarrow> True | FindStream_call q \<Rightarrow> True | Save_call d \<Rightarrow> True
      | RemoveDoc_call d \<Rightarrow> True | _ \<Rightarrow> False)"

text \<open>The serializer yields a falsy value for the document (line 115).\<close>

definition serializes_falsy :: "libs \<Rightarrow> 'w wrapper \<Rightarrow> doc \<Rightarrow> params \<Rightarrow> bool" where
  "serializes_falsy L W d params =
     (case serialized L W d params of Inl e \<Rightarrow> False | Inr ds \<Rightarrow> falsy (snd ds))"

section \<open>An instance over flat documents\<close>

text \<open>
  A concrete instance of the collaborators, for running the wrapper on the data of the
  repository's tests (src/test/lib/fake-data.js). It covers documents, queries and
  updates whose fields are all top-level, where the packages' behaviour is plain: a
  path is a key, a merge overwrites keys, a diff lists the keys whose value differs or
  which are gone. It is used at concrete inputs only; every general theorem below holds
  for all collaborators.
\<close>

definition flat_getPath :: "jval \<Rightarrow> string \<Rightarrow> jval" where
  "flat_getPath v path =
     (case v of
        JObj kvs \<Rightarrow> (case map_of kvs path of Some x \<Rightarrow> x | None \<Rightarrow> JUndefined)
      | _ \<Rightarrow> JUndefined)"

definition flat_setPath :: "jval \<Rightarrow> string \<Rightarrow> jval \<Rightarrow> jval" where
  "flat_setPath obj path v = (case obj of JObj kvs \<Rightarrow> JObj (jobj_set path v kvs) | _ \<Rightarrow> obj)"

definition flat_isScalar :: "jval \<Rightarrow> bool" where
  "flat_isScalar v = (case v of JObj kvs \<Rightarrow> False | JArr xs \<Rightarrow> False | _ \<Rightarrow> True)"

definition flat_merge :: "jval \<Rightarrow> jval \<Rightarrow> jval" where
  "flat_merge a b =
     (case a of
        JObj xs \<Rightarrow>
          (case b of
             JObj ys \<Rightarrow> JObj (foldl (\<lambda>acc kv. jobj_set (fst kv) (snd kv) acc) xs ys)
           | _ \<Rightarrow> a)
      | _ \<Rightarrow> a)"

definition flat_filterObject :: "mask \<Rightarrow> jval \<Rightarrow> jval" where
  "flat_filterObject m v =
     (case v of
        JObj kvs \<Rightarrow> JObj (filter (\<lambda>kv. includes_path m [fst kv]) kvs)
      | _ \<Rightarrow> JUndefined)"

text \<open>
  flexperm: a rule applies to an object when its target is the one asked for and the
  object has every value of its match. The grant is that of the first rule that applies
  (in the permission sets below no two different grants apply to one object, or the
  first one grants everything), and the empty grant when none does.
\<close>

definition rule_applies :: "rule \<Rightarrow> string \<Rightarrow> jval \<Rightarrow> bool" where
  "rule_applies r tgt obj =
     (target r = tgt \<and>
      (case matching r of
         JObj ms \<Rightarrow> list_all (\<lambda>kv. flat_getPath obj (fst kv) = snd kv) ms
       | _ \<Rightarrow> False))"

definition flat_grant :: "permset \<Rightarrow> string \<Rightarrow> jval \<Rightarrow> mask" where
  "flat_grant perms tgt obj =
     (case filter (\<lambda>r. rule_applies r tgt obj) perms of [] \<Rightarrow> Excluded | r # rs \<Rightarrow> grant r)"

definition flat_getTargetGrant :: "permset \<Rightarrow> string \<Rightarrow> jval \<Rightarrow> mask result" where
  "flat_getTargetGrant perms tgt obj = Inr (flat_grant perms tgt obj)"

definition flat_check_fields :: "mask \<Rightarrow> string list \<Rightarrow> string \<Rightarrow> unit result" where
  "flat_check_fields g ks pre =
     (case filter (\<lambda>k. \<not> checkPath g (pre @ k)) ks of
        [] \<Rightarrow> Inr ()
      | k # rest \<Rightarrow> Inl (XError ACCESS_DENIED (pre @ k)))"

definition flat_check_key :: "mask \<Rightarrow> string \<Rightarrow> unit result" where
  "flat_check_key g k = flat_check_fields g [k] []"

definition flat_check_matches :: "mask \<Rightarrow> (string \<times> jval) list \<Rightarrow> string \<Rightarrow> unit result" where
  "flat_check_matches g ms pre = flat_check_fields g (map fst ms) pre"

definition flat_checkMask :: "mask \<Rightarrow> string \<Rightarrow> jval \<Rightarrow> unit result" where
  "flat_checkMask g name v =
     (case v of JObj kvs \<Rightarrow> flat_check_fields g (map fst kvs) (name @ ''.'') | _ \<Rightarrow> Inr ())"

definition flat_getExactMatches :: "jval \<Rightarrow> (string \<times> jval) list" where
  "flat_getExactMatches q =
     (case q of JObj kvs \<Rightarrow> filter (\<lambda>kv. flat_isScalar (snd kv)) kvs | _ \<Rightarrow> [])"

definition flat_checkExecuteQuery :: "permset \<Rightarrow> string \<Rightarrow> jval \<Rightarrow> string list \<Rightarrow> unit result" where
  "flat_checkExecuteQuery perms tgt q caps =
     (let g = flat_grant perms tgt (JObj (flat_getExactMatches q))
      in rthen (flat_check_fields g caps [])
           (\<lambda>x. flat_check_fields g (case q of JObj kvs \<Rightarrow> map fst kvs | _ \<Rightarrow> []) ''readMask.''))"

definition mask_at :: "mask \<Rightarrow> string \<Rightarrow> mask" where
  "mask_at g name = (case g of Partial kvs d \<Rightarrow> mask_child kvs d name | _ \<Rightarrow> g)"

definition flat_createFilterByMask :: "permset \<Rightarrow> string \<Rightarrow> string \<Rightarrow> string \<Rightarrow> jval \<Rightarrow> jval" where
  "flat_createFilterByMask perms tgt cap maskname dat =
     (let g = flat_grant perms tgt dat
      in if checkPath g cap then flat_filterObject (mask_at g maskname) dat else JNull)"

text \<open>
  common-query: an update is an object of operators (\<^verbatim>\<open>$set\<close>, \<^verbatim>\<open>$unset\<close>), or
  a plain object: a full replace where that is allowed, and wrapped in \<^verbatim>\<open>$set\<close>
  otherwise. A mix of both is refused.
\<close>

definition is_operator :: "string \<Rightarrow> bool" where
  "is_operator k = (case k of [] \<Rightarrow> False | c # cs \<Rightarrow> c = CHR ''$'')"

definition flat_isFullReplace :: "jval \<Rightarrow> bool" where
  "flat_isFullReplace u =
     (case u of JObj kvs \<Rightarrow> \<not> list_ex (\<lambda>kv. is_operator (fst kv)) kvs | _ \<Rightarrow> False)"

definition flat_createUpdate :: "jval \<Rightarrow> bool \<Rightarrow> jval result" where
  "flat_createUpdate u allowFullReplace =
     (case u of
        JObj kvs \<Rightarrow>
          if list_ex (\<lambda>kv. is_operator (fst kv)) kvs
          then (if list_all (\<lambda>kv. is_operator (fst kv)) kvs then Inr u
                else Inl (XError (OTHER_CODE ''update_validation_error'')
                            ''Update is a mix of operators and fields''))
          else if allowFullReplace then Inr u
          else Inr (JObj [(''$set'', u)])
      | _ \<Rightarrow> Inl (XError (OTHER_CODE ''update_validation_error'') ''Update is not an object''))"

definition flat_getUpdatedFields :: "jval \<Rightarrow> string list" where
  "flat_getUpdatedFields u =
     (case u of
        JObj kvs \<Rightarrow>
          if flat_isFullReplace u then map fst kvs
          else concat (map (\<lambda>kv. case snd kv of JObj fs \<Rightarrow> map fst fs | _ \<Rightarrow> []) kvs)
      | _ \<Rightarrow> [])"

definition apply_operator :: "jval \<Rightarrow> string \<times> jval \<Rightarrow> jval" where
  "apply_operator tgt kv =
     (if fst kv = ''$set'' then flat_merge tgt (snd kv)
      else if fst kv = ''$unset''
      then (case tgt of
              JObj xs \<Rightarrow>
                (case snd kv of
                   JObj fs \<Rightarrow> JObj (filter (\<lambda>x. fst x \<notin> fst ` set fs) xs)
                 | _ \<Rightarrow> tgt)
            | _ \<Rightarrow> tgt)
      else tgt)"

definition flat_apply_update :: "jval \<Rightarrow> bool \<Rightarrow> jval \<Rightarrow> jval result" where
  "flat_apply_update u allowFullReplace tgt =
     (case u of
        JObj kvs \<Rightarrow> if flat_isFullReplace u then Inr u else Inr (foldl apply_operator tgt kvs)
      | _ \<Rightarrow> Inr tgt)"

definition flat_createFromDiff :: "jval \<Rightarrow> jval \<Rightarrow> jval result" where
  "flat_createFromDiff old new =
     (case old of
        JObj os \<Rightarrow>
          (case new of
             JObj ns \<Rightarrow>
               Inr (JObj
                 [(''$set'', JObj (filter (\<lambda>kv. flat_getPath old (fst kv) \<noteq> snd kv) ns)),
                  (''$unset'',
                   JObj (map (\<lambda>kv. (fst kv, JBool True))
                          (filter (\<lambda>kv. flat_getPath new (fst kv) = JUndefined) os)))])
           | _ \<Rightarrow> Inl (XError (OTHER_CODE ''diff'') ''not an object''))
      | _ \<Rightarrow> Inl (XError (OTHER_CODE ''diff'') ''not an object''))"

definition flat_filterSchema :: "schema \<Rightarrow> (subschema \<Rightarrow> bool option) \<Rightarrow> schema" where
  "flat_filterSchema sch f = filter (\<lambda>ps. f (snd ps) \<noteq> Some False) sch"

definition flat_normalize :: "schema \<Rightarrow> jval \<Rightarrow> jval result" where
  "flat_normalize sch v =
     (case v of
        JObj kvs \<Rightarrow> Inr (JObj (filter (\<lambda>kv. fst kv \<in> fst ` set sch) kvs))
      | _ \<Rightarrow> Inr v)"

definition flat_libs :: libs where
  "flat_libs =
     \<lparr>getPath = flat_getPath,
      setPath = flat_setPath,
      setPathTrue = addField,
      isScalar = flat_isScalar,
      merge = flat_merge,
      deepCopy = (\<lambda>v. v),
      filterObject = flat_filterObject,
      getTargetGrant = flat_getTargetGrant,
      check_key = flat_check_key,
      check_fields = flat_check_fields,
      check_matches = flat_check_matches,
      checkMask = flat_checkMask,
      checkExecuteQuery = flat_checkExecuteQuery,
      getTargetQueryFields = (\<lambda>perms. []),
      createFilterByMask = flat_createFilterByMask,
      createQuery = (\<lambda>q. Inr q),
      getExactMatches = flat_getExactMatches,
      createUpdate = flat_createUpdate,
      getUpdatedFields = flat_getUpdatedFields,
      isFullReplace = flat_isFullReplace,
      apply_update = flat_apply_update,
      createFromDiff = flat_createFromDiff,
      filterSchema = flat_filterSchema,
      normalize = flat_normalize,
      createFilterFunc = flat_filterObject\<rparr>"

text \<open>
  The store of unimodel-fake: the list of its documents. A query is an object of fields,
  each with the value to equal or a \<^verbatim>\<open>$gt\<close> bound. A document made by
  \<^verbatim>\<open>create\<close> carries the schema's defaults and the handle 0 until it is saved.
\<close>

definition field_matches :: "jval \<Rightarrow> jval \<Rightarrow> bool" where
  "field_matches v c =
     (case c of
        JObj ops \<Rightarrow>
          (case map_of ops ''$gt'' of
             Some (JNum n) \<Rightarrow> (case v of JNum m \<Rightarrow> n < m | _ \<Rightarrow> False)
           | _ \<Rightarrow> False)
      | _ \<Rightarrow> v = c)"

definition doc_matches :: "jval \<Rightarrow> doc \<Rightarrow> bool" where
  "doc_matches q d =
     (case q of
        JObj kvs \<Rightarrow> list_all (\<lambda>kv. field_matches (flat_getPath (data d) (fst kv)) (snd kv)) kvs
      | _ \<Rightarrow> False)"

definition fake_findOne :: "jval \<Rightarrow> (doc, doc list) io" where
  "fake_findOne q w =
     (case filter (doc_matches q) w of
        [] \<Rightarrow> (Inl (XError NOT_FOUND ''Document not found''), w)
      | d # ds \<Rightarrow> (Inr d, w))"

definition fake_find :: "jval \<Rightarrow> (doc list, doc list) io" where
  "fake_find q w = (Inr (filter (doc_matches q) w), w)"

definition updated_data :: "jval \<Rightarrow> jval \<Rightarrow> jval" where
  "updated_data u dat = (case flat_apply_update u False dat of Inr nd \<Rightarrow> nd | Inl e \<Rightarrow> dat)"

definition with_defaults :: "(string \<times> jval) list \<Rightarrow> jval \<Rightarrow> jval" where
  "with_defaults defaults dat =
     (case dat of
        JObj kvs \<Rightarrow> JObj (kvs @ filter (\<lambda>kv. fst kv \<notin> fst ` set kvs) defaults)
      | _ \<Rightarrow> JObj defaults)"

definition fake_save :: "doc \<Rightarrow> (doc, doc list) io" where
  "fake_save d w =
     (if handle d \<in> handle ` set w
      then (Inr d, map (\<lambda>x. if handle x = handle d then d else x) w)
      else (let d' = d\<lparr>handle := Suc (foldr max (map handle w) 0)\<rparr> in (Inr d', w @ [d'])))"

definition fake_update :: "jval \<Rightarrow> jval \<Rightarrow> (jval, doc list) io" where
  "fake_update q u w =
     (Inr (JNum (int (length (filter (doc_matches q) w)))),
      map (\<lambda>d. if doc_matches q d then d\<lparr>data := updated_data u (data d)\<rparr> else d) w)"

definition fake_upsert :: "(string \<times> jval) list \<Rightarrow> jval \<Rightarrow> jval \<Rightarrow> (jval, doc list) io" where
  "fake_upsert defaults q u w =
     (if filter (doc_matches q) w = []
      then (case fake_save
                   \<lparr>handle = 0,
                    data = with_defaults defaults
                             (updated_data u (JObj (flat_getExactMatches q)))\<rparr> w of
              (r, w') \<Rightarrow> (Inr (JNum 1), w'))
      else fake_update q u w)"

definition fake_remove :: "jval \<Rightarrow> (jval, doc list) io" where
  "fake_remove q w =
     (Inr (JNum (int (length (filter (doc_matches q) w)))),
      filter (\<lambda>d. \<not> doc_matches q d) w)"

definition fake_model ::
  "string \<Rightarrow> string list \<Rightarrow> schema \<Rightarrow> (string \<times> jval) list \<Rightarrow> doc list model_ops" where
  "fake_model name keys sch defaults =
     \<lparr>getName = name,
      getKeys = Some keys,
      model_schema = sch,
      findOne = fake_findOne,
      find_docs = fake_find,
      findStream = fake_find,
      store_update = fake_update,
      store_upsert = fake_upsert defaults,
      store_remove = fake_remove,
      create = (\<lambda>dat. \<lparr>handle = 0, data = with_defaults defaults dat\<rparr>),
      save = fake_save,
      remove_doc = (\<lambda>d w. (Inr JUndefined, filter (\<lambda>x. handle x \<noteq> handle d) w))\<rparr>"

text \<open>
  The model \<^verbatim>\<open>Animal\<close> of the tests, without its array field: \<^verbatim>\<open>ssn\<close> is
  private, \<^verbatim>\<open>coolness\<close> (default 4) and \<^verbatim>\<open>favNumber\<close> are protected.
\<close>

definition plain :: subschema where
  "plain = \<lparr>is_private = False, is_protected = False\<rparr>"

definition animal_schema :: schema where
  "animal_schema =
     [([], plain), (''id'', plain), (''animalType'', plain), (''name'', plain), (''age'', plain),
      (''ssn'', plain\<lparr>is_private := True\<rparr>),
      (''coolness'', plain\<lparr>is_protected := True\<rparr>),
      (''favNumber'', plain\<lparr>is_protected := True\<rparr>)]"

definition Animal :: "doc list model_ops" where
  "Animal =
     fake_model ''Animal'' [''id''] animal_schema
       [(''animalType'', JStr ''dog''), (''coolness'', JNum 4)]"

definition animal :: "nat \<Rightarrow> string \<Rightarrow> string \<Rightarrow> string \<Rightarrow> int \<Rightarrow> doc" where
  "animal h i t n a =
     \<lparr>handle = h,
      data = JObj [(''id'', JStr i), (''animalType'', JStr t), (''name'', JStr n),
                   (''age'', JNum a)]\<rparr>"

definition testAnimals :: "doc list" where
  "testAnimals =
     [animal 1 ''foo'' ''cat'' ''Toby'' 5,
      animal 2 ''bar'' ''dog'' ''Ruff'' 2,
      animal 3 ''baz'' ''cat'' ''Felix'' 8,
      animal 4 ''qux'' ''horse'' ''Sammy'' 4]"

text \<open>
  Two more stored animals: one with a social security number (a private field), and
  one as \<^verbatim>\<open>put\<close> stores it, with the default of \<^verbatim>\<open>coolness\<close>.
\<close>

definition biz :: doc where
  "biz =
     \<lparr>handle = 5,
      data = JObj [(''id'', JStr ''biz''), (''animalType'', JStr ''horse''),
                   (''ssn'', JStr ''123-123-1234'')]\<rparr>"

definition asdf :: doc where
  "asdf =
     \<lparr>handle = 7,
      data = JObj [(''id'', JStr ''asdf''), (''animalType'', JStr ''frog''), (''age'', JNum 5),
                   (''ssn'', JStr ''456-456-4567''), (''coolness'', JNum 4)]\<rparr>"

definition no_hooks :: "string \<Rightarrow> string list \<Rightarrow> params \<Rightarrow> params result" where
  "no_hooks name args p = Inr p"

definition animal_options :: "doc list options" where
  "animal_options =
     \<lparr>o_model = Animal, o_keys = None, o_serialize = None, o_permissionsTarget = None,
      o_allowNoPermissions = False, o_hooks = no_hooks\<rparr>"

text \<open>
  The wrapper the tests construct, \<^verbatim>\<open>new ModelAccessWrapper({ model: Animal })\<close>,
  written out; \<open>animal_wrapper_built\<close> below shows that the constructor gives it.
\<close>

definition animal_public :: mask where
  "animal_public = Partial [(''ssn'', Excluded)] Included"

definition animal_wrapper :: "doc list wrapper" where
  "animal_wrapper =
     \<lparr>permissionsTarget = ''Animal'',
      allowNoPermissions = False,
      model = Animal,
      serialize = (\<lambda>d p. Inr (data d)),
      keyFields = [''id''],
      hasPrivateFields = True,
      hasProtectedFields = True,
      publicMask = animal_public,
      privateMask = Partial [(''ssn'', Included)] Excluded,
      protectedMask = Partial [(''coolness'', Included), (''favNumber'', Included)] Excluded,
      protectedFields = [''coolness'', ''favNumber''],
      publicPrivateMask = Partial [] Included,
      globalPermissions =
        [\<lparr>target = ''global'', matching = JObj [],
          grant = Partial [(''global'', Included), (''readMask'', animal_public),
                           (''writeMask'', animal_public)] Excluded\<rparr>],
      publicSchema =
        [([], plain), (''id'', plain), (''animalType'', plain), (''name'', plain),
         (''age'', plain), (''coolness'', plain\<lparr>is_protected := True\<rparr>),
         (''favNumber'', plain\<lparr>is_protected := True\<rparr>)],
      hooks = no_hooks\<rparr>"

text \<open>
  A model with a protected object field \<^verbatim>\<open>home\<close>, whose field \<^verbatim>\<open>zip\<close> carries no
  flag of its own; and its wrapper.
\<close>

definition house_schema :: schema where
  "house_schema =
     [([], plain), (''id'', plain), (''home'', plain\<lparr>is_protected := True\<rparr>),
      (''home.zip'', plain)]"

definition House :: "doc list model_ops" where
  "House = fake_model ''House'' [''id''] house_schema []"

definition house_options :: "doc list options" where
  "house_options =
     \<lparr>o_model = House, o_keys = None, o_serialize = None, o_permissionsTarget = None,
      o_allowNoPermissions = False, o_hooks = no_hooks\<rparr>"

definition house_wrapper :: "doc list wrapper" where
  "house_wrapper =
     \<lparr>permissionsTarget = ''House'',
      allowNoPermissions = False,
      model = House,
      serialize = (\<lambda>d p. Inr (data d)),
      keyFields = [''id''],
      hasPrivateFields = False,
      hasProtectedFields = True,
      publicMask = Partial [] Included,
      privateMask = Partial [] Excluded,
      protectedMask = Partial [(''home'', Included)] Excluded,
      protectedFields = [''home''],
      publicPrivateMask = Partial [] Included,
      globalPermissions =
        [\<lparr>target = ''global'', matching = JObj [],
          grant = Partial [(''global'', Included), (''readMask'', Partial [] Included),
                           (''writeMask'', Partial [] Included)] Excluded\<rparr>],
      publicSchema = house_schema,
      hooks = no_hooks\<rparr>"

text \<open>Permission sets of the tests, and the call parameters with nothing set.\<close>

definition everything :: permset where
  "everything = [\<lparr>target = ''Animal'', matching = JObj [], grant = Included\<rparr>]"

definition partialWrite :: permset where
  "partialWrite =
     [\<lparr>target = ''Animal'', matching = JObj [],
       grant = Partial
         [(''read'', Included), (''query'', Included), (''aggregate'', Included),
          (''write'', Included),
          (''readMask'', Partial [(''id'', Included), (''animalType'', Included)] Excluded),
          (''writeMask'', Partial [(''id'', Included), (''animalType'', Included),
                                   (''favNumber'', Included)] Excluded)] Excluded\<rparr>]"

definition singleDoc :: permset where
  "singleDoc =
     [\<lparr>target = ''Animal'', matching = JObj [(''name'', JStr ''Felix'')], grant = Included\<rparr>,
      \<lparr>target = ''Animal'', matching = JObj [],
       grant = Partial [(''query'', Included), (''readMask'', Included)] Excluded\<rparr>]"

text \<open>A permission set that grants everything on the animal named Toby, and no write elsewhere.\<close>

definition tobyOnly :: permset where
  "tobyOnly =
     [\<lparr>target = ''Animal'', matching = JObj [(''name'', JStr ''Toby'')], grant = Included\<rparr>,
      \<lparr>target = ''Animal'', matching = JObj [],
       grant = Partial [(''query'', Included), (''readMask'', Included)] Excluded\<rparr>]"

text \<open>A grant to write the animal type of any animal, but not its id.\<close>

definition typeWriter :: permset where
  "typeWriter =
     [\<lparr>target = ''Animal'', matching = JObj [],
       grant = Partial
         [(''read'', Included), (''query'', Included), (''write'', Included),
          (''readMask'', Included),
          (''writeMask'', Partial [(''animalType'', Included)] Excluded)] Excluded\<rparr>]"

text \<open>A grant to write the id of any animal, and no other field.\<close>

definition idWriter :: permset where
  "idWriter =
     [\<lparr>target = ''Animal'', matching = JObj [],
       grant = Partial
         [(''read'', Included), (''query'', Included), (''write'', Included),
          (''readMask'', Included),
          (''writeMask'', Partial [(''id'', Included)] Excluded)] Excluded\<rparr>]"

definition no_params :: params where
  "no_params =
     \<lparr>permissions = None, allowPrivateFields = False, overwriteProtected = False,
      p_data = JUndefined, p_query = JUndefined, p_update = JUndefined,
      fields_p = None, extraFields = None, requestFields = None, filterFields = None,
      skipFilterFields = False, skipFilterPermissions = False, filterFieldsMask = None,
      filterFieldsFunc = None, filterPermissionsFunc = None\<rparr>"

text \<open>
  A serializer that hides every animal but horses, and the parameters of a call that
  asks for everything under a permission set.
\<close>

definition horses_only :: "doc \<Rightarrow> params \<Rightarrow> jval result" where
  "horses_only d p =
     Inr (if flat_getPath (data d) ''animalType'' = JStr ''horse'' then data d else JNull)"

definition asking :: "permset \<Rightarrow> jval \<Rightarrow> params" where
  "asking perms q = no_params\<lparr>permissions := Some perms, p_query := q\<rparr>"

definition asked :: "permset \<Rightarrow> jval \<Rightarrow> params" where
  "asked perms q =
     (asking perms q)\<lparr>filterPermissionsFunc :=
        Some (flat_createFilterByMask perms ''Animal'' ''read'' ''readMask'')\<rparr>"

text \<open>
  The parameters of an update, upsert or remove call and of a put call, as the caller
  passes them (\<open>changing\<close>, \<open>putting\<close>) and as preprocessed (\<open>preprocessed\<close>).
\<close>

definition changing :: "permset \<Rightarrow> jval \<Rightarrow> jval \<Rightarrow> params" where
  "changing perms q u = no_params\<lparr>permissions := Some perms, p_query := q, p_update := u\<rparr>"

definition putting :: "permset \<Rightarrow> jval \<Rightarrow> params" where
  "putting perms dat = no_params\<lparr>permissions := Some perms, p_data := dat\<rparr>"

definition preprocessed :: "permset \<Rightarrow> params \<Rightarrow> params" where
  "preprocessed perms p =
     p\<lparr>filterPermissionsFunc :=
         Some (flat_createFilterByMask perms ''Animal'' ''read'' ''readMask'')\<rparr>"

section \<open>Evaluating the instance\<close>

lemmas flat_defs =
  flat_libs_def flat_getPath_def flat_setPath_def flat_isScalar_def flat_merge_def
  flat_filterObject_def rule_applies_def flat_grant_def flat_getTargetGrant_def
  flat_check_fields_def flat_check_key_def flat_check_matches_def flat_checkMask_def
  flat_getExactMatches_def flat_checkExecuteQuery_def mask_at_def
  flat_createFilterByMask_def is_operator_def flat_isFullReplace_def flat_createUpdate_def
  flat_getUpdatedFields_def apply_operator_def flat_apply_update_def flat_createFromDiff_def
  flat_filterSchema_def flat_normalize_def checkPath_def mask_child_def

lemmas fake_defs =
  field_matches_def doc_matches_def fake_findOne_def fake_find_def updated_data_def
  with_defaults_def fake_save_def fake_update_def fake_upsert_def fake_remove_def
  fake_model_def Animal_def animal_def testAnimals_def plain_def animal_schema_def
  biz_def asdf_def house_schema_def House_def house_options_def house_wrapper_def
  no_hooks_def animal_public_def animal_wrapper_def no_params_def asking_def asked_def
  changing_def putting_def preprocessed_def

lemmas perm_defs =
  everything_def partialWrite_def singleDoc_def tobyOnly_def typeWriter_def idWriter_def

lemmas wrapper_defs =
  update_def upsert_def remove_def update_grant_def upsert_grant_def update_bulk_def
  upsert_bulk_def remove_bulk_def update_bulk_check_def upsert_bulk_check_def
  remove_bulk_check_def remove_query_checks_def begin_call_def preprocessParams_def
  parse_update_call_def containsProtected_def exactMatchObj_def lodash_union_def
  updateLoop_def upsertLoop_def removeLoop_def update_each_def update_doc_def
  remove_each_def remove_allowed_def recording_def logged_def logging_def

lemmas put_defs =
  put_def put_begin_def put_prepare_def put_store_def put_found_def put_not_found_def
  put_merge_def put_result_def or_empty_def checkDiffPermissions_def preprocessParams_def

lemmas io_defs = io_return_def io_throw_def io_lift_def io_then_def io_then_else_def rthen_def

lemma animal_wrapper_built: "new_wrapper flat_libs animal_options = Inr animal_wrapper"
  by (simp add: new_wrapper_def animal_options_def classify_def onSubschema_def addField_def
      Let_def flat_defs fake_defs)

section \<open>Results of a query\<close>

lemma mapSeries_prepare_no_other:
  "\<forall>d \<in> set docs. \<not> failed_otherwise (prepareResultObject L W d p) \<Longrightarrow>
   mapSeries_prepare L W p docs n =
     Inr (map (\<lambda>d. slot (prepareResultObject L W d p)) docs,
          n + length (filter (\<lambda>d. denied (prepareResultObject L W d p)) docs))"
proof (induction docs arbitrary: n)
  case Nil
  then show ?case by simp
next
  case (Cons d ds)
  then show ?case
    by (cases "prepareResultObject L W d p")
       (auto simp: rthen_def slot_def denied_def failed_otherwise_def)
qed

lemma mapSeries_prepare_other:
  "\<forall>x \<in> set ds1. \<not> failed_otherwise (prepareResultObject L W x p) \<Longrightarrow>
   prepareResultObject L W d p = Inl e \<Longrightarrow> err_code e \<noteq> ACCESS_DENIED \<Longrightarrow>
   mapSeries_prepare L W p (ds1 @ d # ds2) n = Inl e"
proof (induction ds1 arbitrary: n)
  case Nil
  then show ?case by simp
next
  case (Cons x xs)
  then show ?case
    by (cases "prepareResultObject L W x p")
       (auto simp: rthen_def failed_otherwise_def)
qed

lemma all_filtered_iff:
  "(length xs \<le> length (filter P xs)) = (\<forall>x \<in> set xs. P x)"
proof
  assume "length xs \<le> length (filter P xs)"
  then have "length (filter P xs) = length xs"
    using length_filter_le [of P xs] by simp
  then show "\<forall>x \<in> set xs. P x"
    by (metis length_filter_less less_irrefl)
next
  assume "\<forall>x \<in> set xs. P x"
  then show "length xs \<le> length (filter P xs)" by simp
qed

lemma query_reaches_results:
  "query_find L W params0 w = (Inr (p, docs), w') \<Longrightarrow>
   query L W params0 w = (query_results L W p docs, w')"
  by (simp add: query_def io_then_def io_lift_def)

lemma query_results_no_other:
  assumes "\<forall>d \<in> set docs. \<not> failed_otherwise (prepareResultObject L W d p)"
  shows "query_results L W p docs =
     (if docs \<noteq> [] \<and> (\<forall>d \<in> set docs. denied (prepareResultObject L W d p))
      then Inl (XError ACCESS_DENIED ''All results filtered.'')
      else Inr (map (\<lambda>d. slot (prepareResultObject L W d p)) docs))"
  using assms
  by (simp add: query_results_def mapSeries_prepare_no_other rthen_def all_filtered_iff)

lemma query_results_other:
  assumes "\<forall>x \<in> set ds1. \<not> failed_otherwise (prepareResultObject L W x p)"
    and "prepareResultObject L W d p = Inl e" and "err_code e \<noteq> ACCESS_DENIED"
  shows "query_results L W p (ds1 @ d # ds2) = Inl e"
  using assms by (simp add: query_results_def mapSeries_prepare_other rthen_def)

lemma first_other_failure:
  assumes "\<exists>d \<in> set docs. failed_otherwise (prepareResultObject L W d p)"
  shows "\<exists>ds1 d ds2 e. docs = ds1 @ d # ds2
           \<and> (\<forall>x \<in> set ds1. \<not> failed_otherwise (prepareResultObject L W x p))
           \<and> prepareResultObject L W d p = Inl e \<and> err_code e \<noteq> ACCESS_DENIED"
proof -
  from assms obtain ds1 d ds2 where
    split: "docs = ds1 @ d # ds2" and
    d: "failed_otherwise (prepareResultObject L W d p)" and
    before: "\<forall>x \<in> set ds1. \<not> failed_otherwise (prepareResultObject L W x p)"
    using split_list_first_prop [of docs "\<lambda>d. failed_otherwise (prepareResultObject L W d p)"]
    by blast
  from d obtain e where "prepareResultObject L W d p = Inl e" "err_code e \<noteq> ACCESS_DENIED"
    by (auto simp: failed_otherwise_def split: sum.splits)
  with split before show ?thesis by blast
qed

lemma falsy_prepares_null:
  "serializes_falsy L W d p \<Longrightarrow> prepareResultObject L W d p = Inr None"
  by (auto simp: serializes_falsy_def prepareResultObject_def rthen_def Let_def split: sum.splits)

text \<open>
  C3. For a query call that reaches the preparation of its results (\<open>query_find\<close>
  resolves with the documents \<open>docs\<close>): a document whose preparation raises
  ACCESS_DENIED does not abort the call, its entry in the returned array is null
  (\<open>slot\<close> of an error is \<open>None\<close>); the call fails with ACCESS_DENIED exactly when at
  least one document matched and the preparation of every matched document was denied;
  and an error with any other code from the preparation of a document is the error of
  the call.
\<close>

theorem query_denied_documents_become_null:
  assumes reach: "query_find L W params0 w = (Inr (p, docs), w')"
  shows "((\<forall>d \<in> set docs. \<not> failed_otherwise (prepareResultObject L W d p))
            \<and> \<not> (docs \<noteq> [] \<and> (\<forall>d \<in> set docs. denied (prepareResultObject L W d p)))
          \<longrightarrow> query L W params0 w
                = (Inr (map (\<lambda>d. slot (prepareResultObject L W d p)) docs), w'))
       \<and> ((\<exists>e. fst (query L W params0 w) = Inl e \<and> err_code e = ACCESS_DENIED)
            = (docs \<noteq> [] \<and> (\<forall>d \<in> set docs. denied (prepareResultObject L W d p))))
       \<and> (\<forall>ds1 d ds2 e.
            docs = ds1 @ d # ds2
            \<and> (\<forall>x \<in> set ds1. \<not> failed_otherwise (prepareResultObject L W x p))
            \<and> prepareResultObject L W d p = Inl e \<and> err_code e \<noteq> ACCESS_DENIED
            \<longrightarrow> query L W params0 w = (Inl e, w'))"
proof -
  have q: "query L W params0 w = (query_results L W p docs, w')"
    using reach by (rule query_reaches_results)
  have one: "(\<forall>d \<in> set docs. \<not> failed_otherwise (prepareResultObject L W d p))
            \<and> \<not> (docs \<noteq> [] \<and> (\<forall>d \<in> set docs. denied (prepareResultObject L W d p)))
          \<longrightarrow> query L W params0 w
                = (Inr (map (\<lambda>d. slot (prepareResultObject L W d p)) docs), w')"
    using q by (simp add: query_results_no_other)
  have three: "\<forall>ds1 d ds2 e.
            docs = ds1 @ d # ds2
            \<and> (\<forall>x \<in> set ds1. \<not> failed_otherwise (prepareResultObject L W x p))
            \<and> prepareResultObject L W d p = Inl e \<and> err_code e \<noteq> ACCESS_DENIED
            \<longrightarrow> query L W params0 w = (Inl e, w')"
    using q by (auto simp: query_results_other)
  have two: "(\<exists>e. fst (query L W params0 w) = Inl e \<and> err_code e = ACCESS_DENIED)
            = (docs \<noteq> [] \<and> (\<forall>d \<in> set docs. denied (prepareResultObject L W d p)))"
  proof (cases "\<exists>d \<in> set docs. failed_otherwise (prepareResultObject L W d p)")
    case True
    then obtain ds1 d ds2 e where
      split: "docs = ds1 @ d # ds2" and
      before: "\<forall>x \<in> set ds1. \<not> failed_otherwise (prepareResultObject L W x p)" and
      d: "prepareResultObject L W d p = Inl e" and e: "err_code e \<noteq> ACCESS_DENIED"
      using first_other_failure by blast
    have "query_results L W p docs = Inl e"
      unfolding split using before d e by (rule query_results_other)
    moreover have "\<not> denied (prepareResultObject L W d p)"
      using d e by (simp add: denied_def)
    moreover have "d \<in> set docs" using split by simp
    ultimately show ?thesis using q e by auto
  next
    case False
    then show ?thesis using q by (auto simp: query_results_no_other)
  qed
  from one two three show ?thesis by blast
qed

theorem query_denied_documents_become_null_witness:
  "(\<exists>p. query_find flat_libs animal_wrapper (asking singleDoc (JObj [])) testAnimals
          = (Inr (p, testAnimals), testAnimals))
   \<and> query flat_libs animal_wrapper (asking singleDoc (JObj [])) testAnimals
       = (Inr [None, None, Some (data (animal 3 ''baz'' ''cat'' ''Felix'' 8),
                                 animal 3 ''baz'' ''cat'' ''Felix'' 8), None],
          testAnimals)"
proof -
  have reach: "query_find flat_libs animal_wrapper (asking singleDoc (JObj [])) testAnimals
     = (Inr (asked singleDoc (JObj []), testAnimals), testAnimals)"
    by (simp add: query_find_def preprocessParams_def singleDoc_def io_defs fake_defs flat_defs Let_def)
  have prep: "map (\<lambda>d. prepareResultObject flat_libs animal_wrapper d (asked singleDoc (JObj [])))
                testAnimals
     = [Inl (XError ACCESS_DENIED ''No access to data fields''),
        Inl (XError ACCESS_DENIED ''No access to data fields''),
        Inr (Some (data (animal 3 ''baz'' ''cat'' ''Felix'' 8), animal 3 ''baz'' ''cat'' ''Felix'' 8)),
        Inl (XError ACCESS_DENIED ''No access to data fields'')]"
    by (simp add: prepareResultObject_def serialized_def singleDoc_def io_defs fake_defs flat_defs Let_def)
  show ?thesis
    using query_denied_documents_become_null [OF reach] reach prep
    by (simp add: testAnimals_def failed_otherwise_def denied_def slot_def)
qed

text \<open>
  C10. In a query, a document for which the serializer yields a falsy value is prepared
  as null without an error; it does not count as filtered, so a query with such a
  document among denied ones still resolves; and a query in which every matched document
  serializes to a falsy value resolves with an array of nulls.
\<close>

theorem query_falsy_serialization_is_null:
  assumes reach: "query_find L W params0 w = (Inr (p, docs), w')"
  shows "(\<forall>d. serializes_falsy L W d p \<longrightarrow> prepareResultObject L W d p = Inr None)
       \<and> ((\<exists>d \<in> set docs. serializes_falsy L W d p)
            \<and> (\<forall>d \<in> set docs. \<not> failed_otherwise (prepareResultObject L W d p))
          \<longrightarrow> query L W params0 w
                = (Inr (map (\<lambda>d. slot (prepareResultObject L W d p)) docs), w'))
       \<and> ((\<forall>d \<in> set docs. serializes_falsy L W d p)
          \<longrightarrow> query L W params0 w = (Inr (replicate (length docs) None), w'))"
proof -
  have q: "query L W params0 w = (query_results L W p docs, w')"
    using reach by (rule query_reaches_results)
  have nd: "\<not> denied (prepareResultObject L W d p)" "\<not> failed_otherwise (prepareResultObject L W d p)"
       "slot (prepareResultObject L W d p) = None"
    if "serializes_falsy L W d p" for d
    using falsy_prepares_null [OF that] by (simp_all add: denied_def failed_otherwise_def slot_def)
  have two: "(\<exists>d \<in> set docs. serializes_falsy L W d p)
            \<and> (\<forall>d \<in> set docs. \<not> failed_otherwise (prepareResultObject L W d p))
          \<longrightarrow> query L W params0 w
                = (Inr (map (\<lambda>d. slot (prepareResultObject L W d p)) docs), w')"
    using q nd(1) by (auto simp: query_results_no_other)
  have three: "(\<forall>d \<in> set docs. serializes_falsy L W d p)
          \<longrightarrow> query L W params0 w = (Inr (replicate (length docs) None), w')"
  proof
    assume all: "\<forall>d \<in> set docs. serializes_falsy L W d p"
    then have "\<forall>d \<in> set docs. \<not> failed_otherwise (prepareResultObject L W d p)"
      using nd(2) by blast
    moreover have "\<not> (docs \<noteq> [] \<and> (\<forall>d \<in> set docs. denied (prepareResultObject L W d p)))"
      using all nd(1) by (cases docs) auto
    moreover have "map (\<lambda>d. slot (prepareResultObject L W d p)) docs = replicate (length docs) None"
      using all nd(3) by (simp add: map_replicate_const [symmetric] cong: map_cong)
    ultimately show "query L W params0 w = (Inr (replicate (length docs) None), w')"
      using q by (simp add: query_results_no_other)
  qed
  from falsy_prepares_null two three show ?thesis by blast
qed

theorem query_falsy_serialization_is_null_witness:
  "(\<exists>p. query_find flat_libs (animal_wrapper\<lparr>serialize := horses_only\<rparr>)
           (asking everything (JObj [(''animalType'', JStr ''cat'')])) testAnimals
          = (Inr (p, [animal 1 ''foo'' ''cat'' ''Toby'' 5, animal 3 ''baz'' ''cat'' ''Felix'' 8]),
             testAnimals))
   \<and> query flat_libs (animal_wrapper\<lparr>serialize := horses_only\<rparr>)
        (asking everything (JObj [(''animalType'', JStr ''cat'')])) testAnimals
       = (Inr [None, None], testAnimals)"
proof -
  let ?W = "animal_wrapper\<lparr>serialize := horses_only\<rparr>"
  let ?q = "JObj [(''animalType'', JStr ''cat'')]"
  let ?cats = "[animal 1 ''foo'' ''cat'' ''Toby'' 5, animal 3 ''baz'' ''cat'' ''Felix'' 8]"
  have reach: "query_find flat_libs ?W (asking everything ?q) testAnimals
     = (Inr (asked everything ?q, ?cats), testAnimals)"
    by (simp add: query_find_def preprocessParams_def everything_def io_defs fake_defs
        flat_defs Let_def)
  have falsy: "\<forall>d \<in> set ?cats. serializes_falsy flat_libs ?W d (asked everything ?q)"
    by (simp add: serializes_falsy_def serialized_def horses_only_def io_defs fake_defs
        flat_defs Let_def)
  show ?thesis
    using query_falsy_serialization_is_null [OF reach] reach falsy by simp
qed

section \<open>Update, upsert and remove by query\<close>

text \<open>
  C6. For an update or upsert call whose parsed update lists a protected field among its
  updated field paths, on a model with protected fields and without overwriteProtected,
  the call fails with INVALID_ARGUMENT and leaves the store as it was. The error comes
  before the wrapper consults the permission set or the model: the result is the same
  for every behaviour of either (the hypotheses constrain only the parsers and the
  hooks), and over a recording model no call is recorded.
\<close>

theorem protected_update_is_refused:
  assumes "createQuery L (p_query p) = Inr q"
    and "createUpdate L (p_update p) False = Inr u"
    and "hasProtectedFields W" and "\<not> overwriteProtected p"
    and "\<exists>f \<in> set (protectedFields W). f \<in> set (getUpdatedFields L u)"
  shows "(begin_call L W params0 ''update'' = Inr p
            \<longrightarrow> update L W params0 w
                = (Inl (XError INVALID_ARGUMENT ''Target document contains protected fields.''), w))
       \<and> (begin_call L W params0 ''upsert'' = Inr p
            \<longrightarrow> upsert L W params0 w
                = (Inl (XError INVALID_ARGUMENT ''Target document contains protected fields.''), w))"
proof -
  have "containsProtected W (getUpdatedFields L u)"
    using assms(5) by (simp add: containsProtected_def list_ex_iff)
  then have "parse_update_call L W p
      = Inl (XError INVALID_ARGUMENT ''Target document contains protected fields.'')"
    using assms(1-4) by (simp add: parse_update_call_def rthen_def)
  then show ?thesis
    by (simp add: update_def upsert_def io_then_def io_lift_def)
qed

theorem protected_update_is_refused_witness:
  "createQuery flat_libs (JObj [(''id'', JStr ''baz'')]) = Inr (JObj [(''id'', JStr ''baz'')])
   \<and> createUpdate flat_libs
        (JObj [(''$set'', JObj [(''animalType'', JStr ''dog''), (''favNumber'', JNum 2)])]) False
      = Inr (JObj [(''$set'', JObj [(''animalType'', JStr ''dog''), (''favNumber'', JNum 2)])])
   \<and> hasProtectedFields animal_wrapper
   \<and> ''favNumber'' \<in> set (protectedFields animal_wrapper)
   \<and> ''favNumber'' \<in> set (getUpdatedFields flat_libs
        (JObj [(''$set'', JObj [(''animalType'', JStr ''dog''), (''favNumber'', JNum 2)])]))
   \<and> update flat_libs animal_wrapper
        (changing everything (JObj [(''id'', JStr ''baz'')])
           (JObj [(''$set'', JObj [(''animalType'', JStr ''dog''), (''favNumber'', JNum 2)])]))
        testAnimals
      = (Inl (XError INVALID_ARGUMENT ''Target document contains protected fields.''), testAnimals)
   \<and> upsert flat_libs animal_wrapper
        (changing everything (JObj [(''id'', JStr ''baz'')])
           (JObj [(''$set'', JObj [(''animalType'', JStr ''dog''), (''favNumber'', JNum 2)])]))
        testAnimals
      = (Inl (XError INVALID_ARGUMENT ''Target document contains protected fields.''), testAnimals)"
proof -
  let ?q = "JObj [(''id'', JStr ''baz'')]"
  let ?u = "JObj [(''$set'', JObj [(''animalType'', JStr ''dog''), (''favNumber'', JNum 2)])]"
  let ?p = "preprocessed everything (changing everything ?q ?u)"
  have a: "createQuery flat_libs (p_query ?p) = Inr ?q"
    by (simp add: flat_defs fake_defs)
  have b: "createUpdate flat_libs (p_update ?p) False = Inr ?u"
    by (simp add: flat_defs fake_defs)
  have c: "hasProtectedFields animal_wrapper" "\<not> overwriteProtected ?p"
    by (simp_all add: fake_defs)
  have d1: "''favNumber'' \<in> set (protectedFields animal_wrapper)"
    by (simp add: fake_defs)
  have d2: "''favNumber'' \<in> set (getUpdatedFields flat_libs ?u)"
    by (simp add: flat_defs)
  have d: "\<exists>f \<in> set (protectedFields animal_wrapper). f \<in> set (getUpdatedFields flat_libs ?u)"
    using d1 d2 by blast
  have e: "begin_call flat_libs animal_wrapper (changing everything ?q ?u) ''update'' = Inr ?p"
    "begin_call flat_libs animal_wrapper (changing everything ?q ?u) ''upsert'' = Inr ?p"
    by (simp_all add: begin_call_def preprocessParams_def perm_defs io_defs fake_defs flat_defs)
  show ?thesis
    using protected_update_is_refused [OF a b c d, of "changing everything ?q ?u" testAnimals]
      a b c d1 d2 e
    by (simp add: fake_defs)
qed

subsection \<open>The calls a run makes on the model\<close>

lemma appends_lift: "appends P (io_lift r)"
  by (simp add: appends_def io_lift_def)

lemma appends_return: "appends P (io_return x)"
  by (simp add: appends_def io_return_def)

lemma appends_throw: "appends P (io_throw e)"
  by (simp add: appends_def io_throw_def)

lemma appends_logging: "P c \<Longrightarrow> appends P (logging c m)"
  by (simp add: appends_def logging_def split: prod.splits)

lemma appends_then:
  assumes m: "appends P m" and f: "\<And>x. appends P (f x)"
  shows "appends P (io_then m f)"
  unfolding appends_def
proof
  fix wl
  obtain r wl1 where mw: "m wl = (r, wl1)" by (cases "m wl")
  from m obtain cs where cs: "snd wl1 = snd wl @ cs" "list_all P cs"
    unfolding appends_def using mw by (metis snd_conv)
  show "\<exists>cs. snd (snd (io_then m f wl)) = snd wl @ cs \<and> list_all P cs"
  proof (cases r)
    case (Inl e)
    then show ?thesis using mw cs by (auto simp: io_then_def)
  next
    case (Inr x)
    from f [of x] obtain ds where "snd (snd (f x wl1)) = snd wl1 @ ds" "list_all P ds"
      unfolding appends_def by blast
    then show ?thesis using mw cs Inr by (auto simp: io_then_def)
  qed
qed

lemma appends_each:
  assumes f: "\<And>x. appends P (f x)"
  shows "appends P (io_each f xs)"
proof (induction xs)
  case Nil
  show ?case by (simp add: appends_def)
next
  case (Cons x xs)
  have "io_each f (x # xs) = io_then (f x) (\<lambda>y. io_each f xs)"
    by (rule ext) (simp add: io_then_def split: prod.splits sum.splits)
  then show ?case using f Cons by (simp add: appends_then)
qed

lemma appendsD:
  "appends P m \<Longrightarrow> m (w, l) = (r, (w', l')) \<Longrightarrow> \<exists>cs. l' = l @ cs \<and> list_all P cs"
  unfolding appends_def by (metis snd_conv)

lemma model_recording [simp]: "model (recording W) = logged (model W)"
  by (simp add: recording_def)

lemma logged_simps [simp]:
  "findOne (logged M) q = logging (FindOne_call q) (findOne M q)"
  "findStream (logged M) q = logging (FindStream_call q) (findStream M q)"
  "store_update (logged M) q u = logging (Update_call q u) (store_update M q u)"
  "store_upsert (logged M) q u = logging (Upsert_call q u) (store_upsert M q u)"
  "store_remove (logged M) q = logging (Remove_call q) (store_remove M q)"
  "save (logged M) d = logging (Save_call d) (save M d)"
  "remove_doc (logged M) d = logging (RemoveDoc_call d) (remove_doc M d)"
  "create (logged M) = create M"
  by (simp_all add: logged_def)

lemma update_each_appends: "appends per_document (update_each L (recording W) perms fs u d)"
  by (simp add: update_each_def appends_then appends_lift appends_logging per_document_def)

lemma remove_each_appends: "appends per_document (remove_each L (recording W) perms d)"
  by (simp add: remove_each_def appends_then appends_lift appends_logging per_document_def)

lemma updateLoop_appends: "appends per_document (updateLoop L (recording W) q u perms)"
  by (simp add: updateLoop_def appends_then appends_each appends_return appends_logging
      update_each_appends per_document_def)

lemma removeLoop_appends: "appends per_document (removeLoop L (recording W) q perms)"
  by (simp add: removeLoop_def appends_then appends_each appends_return appends_logging
      remove_each_appends per_document_def)

lemma appends_then_else:
  assumes m: "appends P m" and f: "\<And>x. appends P (f x)" and h: "\<And>e. appends P (h e)"
  shows "appends P (io_then_else m f h)"
  unfolding appends_def
proof
  fix wl
  obtain r wl1 where mw: "m wl = (r, wl1)" by (cases "m wl")
  from m obtain cs where cs: "snd wl1 = snd wl @ cs" "list_all P cs"
    unfolding appends_def using mw by (metis snd_conv)
  show "\<exists>cs. snd (snd (io_then_else m f h wl)) = snd wl @ cs \<and> list_all P cs"
  proof (cases r)
    case (Inl e)
    from h [of e] obtain ds where "snd (snd (h e wl1)) = snd wl1 @ ds" "list_all P ds"
      unfolding appends_def by blast
    then show ?thesis using mw cs Inl by (auto simp: io_then_else_def)
  next
    case (Inr x)
    from f [of x] obtain ds where "snd (snd (f x wl1)) = snd wl1 @ ds" "list_all P ds"
      unfolding appends_def by blast
    then show ?thesis using mw cs Inr by (auto simp: io_then_else_def)
  qed
qed

lemma upsertLoop_appends: "appends per_document (upsertLoop L (recording W) q u perms)"
  by (simp add: upsertLoop_def Let_def appends_then_else appends_then appends_each
      appends_return appends_throw appends_lift appends_logging update_each_appends
      per_document_def)


lemma first_call_then:
  assumes f: "\<And>x. appends P (f x)"
  shows "c \<in> set (snd (snd (io_then (logging c m) f wl)))"
proof -
  obtain r w1 where mw: "m (fst wl) = (r, w1)" by (cases "m (fst wl)")
  show ?thesis
  proof (cases r)
    case (Inl e)
    then show ?thesis using mw by (simp add: io_then_def logging_def)
  next
    case (Inr x)
    from f [of x] obtain cs where
      "snd (snd (f x (w1, snd wl @ [c]))) = snd (w1, snd wl @ [c]) @ cs"
      unfolding appends_def by blast
    then show ?thesis using mw Inr by (simp add: io_then_def logging_def)
  qed
qed

lemma first_call_then_else:
  assumes f: "\<And>x. appends P (f x)" and h: "\<And>e. appends P (h e)"
  shows "c \<in> set (snd (snd (io_then_else (logging c m) f h wl)))"
proof -
  obtain r w1 where mw: "m (fst wl) = (r, w1)" by (cases "m (fst wl)")
  show ?thesis
  proof (cases r)
    case (Inl e)
    from h [of e] obtain cs where
      "snd (snd (h e (w1, snd wl @ [c]))) = snd (w1, snd wl @ [c]) @ cs"
      unfolding appends_def by blast
    then show ?thesis using mw Inl by (simp add: io_then_else_def logging_def)
  next
    case (Inr x)
    from f [of x] obtain cs where
      "snd (snd (f x (w1, snd wl @ [c]))) = snd (w1, snd wl @ [c]) @ cs"
      unfolding appends_def by blast
    then show ?thesis using mw Inr by (simp add: io_then_else_def logging_def)
  qed
qed

lemma updateLoop_streams:
  "FindStream_call q \<in> set (snd (snd (updateLoop L (recording W) q u perms wl)))"
  unfolding updateLoop_def model_recording logged_simps
  by (rule first_call_then [where P = per_document])
     (simp add: appends_then appends_each appends_return update_each_appends)

lemma removeLoop_streams:
  "FindStream_call q \<in> set (snd (snd (removeLoop L (recording W) q perms wl)))"
  unfolding removeLoop_def model_recording logged_simps
  by (rule first_call_then [where P = per_document])
     (simp add: appends_then appends_each appends_return remove_each_appends)

lemma upsertLoop_finds:
  "FindOne_call q \<in> set (snd (snd (upsertLoop L (recording W) q u perms wl)))"
  unfolding upsertLoop_def Let_def model_recording logged_simps
  by (rule first_call_then_else [where P = per_document])
     (simp_all add: appends_then appends_each appends_return appends_throw appends_lift
        appends_logging update_each_appends per_document_def)

lemma update_reaches_bulk:
  "begin_call L W params0 ''update'' = Inr p \<Longrightarrow> parse_update_call L W p = Inr (q, u) \<Longrightarrow>
   permissions p = Some perms \<Longrightarrow> update_grant L W p perms q = Inr g \<Longrightarrow>
   update L W params0 w = update_bulk L W p perms g q u w"
  by (simp add: update_def io_then_def io_lift_def)

lemma upsert_reaches_bulk:
  "begin_call L W params0 ''upsert'' = Inr p \<Longrightarrow> parse_update_call L W p = Inr (q, u) \<Longrightarrow>
   permissions p = Some perms \<Longrightarrow> upsert_grant L W p perms q = Inr g \<Longrightarrow>
   upsert L W params0 w = upsert_bulk L W perms g q u w"
  by (simp add: upsert_def io_then_def io_lift_def)

lemma remove_reaches_bulk:
  "begin_call L W params0 ''remove'' = Inr p \<Longrightarrow> createQuery L (p_query p) = Inr q \<Longrightarrow>
   permissions p = Some perms \<Longrightarrow> remove_query_checks L W p perms q = Inr () \<Longrightarrow>
   remove L W params0 w = remove_bulk L W perms q w"
  by (simp add: remove_def io_then_def io_lift_def)

lemma update_bulk_cases:
  "update_bulk L (recording W) p perms g q u (w, []) =
     (case update_bulk_check L (recording W) p g q u of
        Inl ex \<Rightarrow> if err_code ex = ACCESS_DENIED
                  then updateLoop L (recording W) q u perms (w, []) else (Inl ex, (w, []))
      | Inr x \<Rightarrow> (case store_update (model W) q u w of
                    (r, w') \<Rightarrow> (map_sum id RVal r, (w', [Update_call q u]))))"
  by (auto simp: update_bulk_def io_then_def io_throw_def io_return_def logging_def
      split: sum.splits prod.splits)

lemma upsert_bulk_cases:
  "upsert_bulk L (recording W) perms g q u (w, []) =
     (case upsert_bulk_check L g q u of
        Inl ex \<Rightarrow> if err_code ex = ACCESS_DENIED
                  then upsertLoop L (recording W) q u perms (w, []) else (Inl ex, (w, []))
      | Inr x \<Rightarrow> (case store_upsert (model W) q u w of
                    (r, w') \<Rightarrow> (map_sum id RVal r, (w', [Upsert_call q u]))))"
  by (auto simp: upsert_bulk_def io_then_def io_throw_def io_return_def logging_def
      split: sum.splits prod.splits)

lemma remove_bulk_cases:
  "remove_bulk L (recording W) perms q (w, []) =
     (case remove_bulk_check L (recording W) perms q of
        Inl ex \<Rightarrow> if err_code ex = ACCESS_DENIED
                  then removeLoop L (recording W) q perms (w, []) else (Inl ex, (w, []))
      | Inr x \<Rightarrow> (case store_remove (model W) q w of
                    (r, w') \<Rightarrow> (map_sum id RVal r, (w', [Remove_call q]))))"
  by (auto simp: remove_bulk_def io_then_def io_throw_def io_return_def logging_def
      split: sum.splits prod.splits)

lemma update_bulk_log:
  "(FindStream_call q \<in> set (snd (snd (update_bulk L (recording W) p perms g q u (w, [])))))
     = denied (update_bulk_check L (recording W) p g q u)"
  by (auto simp: update_bulk_cases denied_def updateLoop_streams split: sum.splits prod.splits)

lemma upsert_bulk_log:
  "(FindOne_call q \<in> set (snd (snd (upsert_bulk L (recording W) perms g q u (w, [])))))
     = denied (upsert_bulk_check L g q u)"
  by (auto simp: upsert_bulk_cases denied_def upsertLoop_finds split: sum.splits prod.splits)

lemma remove_bulk_log:
  "(FindStream_call q \<in> set (snd (snd (remove_bulk L (recording W) perms q (w, [])))))
     = denied (remove_bulk_check L (recording W) perms q)"
  by (auto simp: remove_bulk_cases denied_def removeLoop_streams split: sum.splits prod.splits)

lemma bulk_checks_recording [simp]:
  "update_bulk_check L (recording W) p g q u = update_bulk_check L W p g q u"
  "remove_bulk_check L (recording W) perms q = remove_bulk_check L W perms q"
  by (simp_all add: update_bulk_check_def remove_bulk_check_def recording_def)

lemma not_per_document [simp]:
  "\<not> per_document (Update_call q u)" "\<not> per_document (Upsert_call q u)"
  "\<not> per_document (Remove_call q)"
  by (simp_all add: per_document_def)

lemma appends_from_empty:
  assumes "appends P m" and "c \<in> set (snd (snd (m (w, []))))"
  shows "P c"
proof -
  from assms(1) obtain cs where "snd (snd (m (w, []))) = snd (w, []) @ cs" "list_all P cs"
    unfolding appends_def by blast
  then show ?thesis using assms(2) by (simp add: list_all_iff)
qed

lemma updateLoop_never_delegates:
  "c \<in> set (snd (snd (updateLoop L (recording W) q u perms (w, [])))) \<Longrightarrow> per_document c"
  by (rule appends_from_empty [OF updateLoop_appends])

lemma upsertLoop_never_delegates:
  "c \<in> set (snd (snd (upsertLoop L (recording W) q u perms (w, [])))) \<Longrightarrow> per_document c"
  by (rule appends_from_empty [OF upsertLoop_appends])

lemma removeLoop_never_delegates:
  "c \<in> set (snd (snd (removeLoop L (recording W) q perms (w, [])))) \<Longrightarrow> per_document c"
  by (rule appends_from_empty [OF removeLoop_appends])

lemma unit_steps: "(rthen a (\<lambda>x. b) = Inr ()) = (a = Inr () \<and> b = Inr ())"
  by (cases a) (auto simp: rthen_def)

text \<open>
  C4. For an update, upsert or remove call with permissions that reaches the
  \<^verbatim>\<open>try\<close> block of its bulk check: the fallback loop runs (the run streams the
  query's documents, and for upsert first looks for one) exactly when the bulk check
  fails with an error of code ACCESS_DENIED, and then the call is the loop; a failure of
  the bulk check with any other code is the result of the call, with no call made on
  the model.
\<close>

theorem fallback_loop_exactly_on_access_denied:
  "(begin_call L (recording W) params0 ''update'' = Inr p
      \<and> parse_update_call L (recording W) p = Inr (q, u)
      \<and> permissions p = Some perms \<and> update_grant L (recording W) p perms q = Inr g
    \<longrightarrow> (FindStream_call q \<in> set (snd (snd (update L (recording W) params0 (w, []))))
           = denied (update_bulk_check L (recording W) p g q u))
        \<and> (denied (update_bulk_check L (recording W) p g q u)
           \<longrightarrow> update L (recording W) params0 (w, [])
                = updateLoop L (recording W) q u perms (w, []))
        \<and> (\<forall>ex. update_bulk_check L (recording W) p g q u = Inl ex
                \<and> err_code ex \<noteq> ACCESS_DENIED
           \<longrightarrow> update L (recording W) params0 (w, []) = (Inl ex, (w, []))))
   \<and> (begin_call L (recording W) params0 ''upsert'' = Inr p
      \<and> parse_update_call L (recording W) p = Inr (q, u)
      \<and> permissions p = Some perms \<and> upsert_grant L (recording W) p perms q = Inr g
    \<longrightarrow> (FindOne_call q \<in> set (snd (snd (upsert L (recording W) params0 (w, []))))
           = denied (upsert_bulk_check L g q u))
        \<and> (denied (upsert_bulk_check L g q u)
           \<longrightarrow> upsert L (recording W) params0 (w, [])
                = upsertLoop L (recording W) q u perms (w, []))
        \<and> (\<forall>ex. upsert_bulk_check L g q u = Inl ex \<and> err_code ex \<noteq> ACCESS_DENIED
           \<longrightarrow> upsert L (recording W) params0 (w, []) = (Inl ex, (w, []))))
   \<and> (begin_call L (recording W) params0 ''remove'' = Inr p
      \<and> createQuery L (p_query p) = Inr q
      \<and> permissions p = Some perms \<and> remove_query_checks L (recording W) p perms q = Inr ()
    \<longrightarrow> (FindStream_call q \<in> set (snd (snd (remove L (recording W) params0 (w, []))))
           = denied (remove_bulk_check L (recording W) perms q))
        \<and> (denied (remove_bulk_check L (recording W) perms q)
           \<longrightarrow> remove L (recording W) params0 (w, [])
                = removeLoop L (recording W) q perms (w, []))
        \<and> (\<forall>ex. remove_bulk_check L (recording W) perms q = Inl ex
                \<and> err_code ex \<noteq> ACCESS_DENIED
           \<longrightarrow> remove L (recording W) params0 (w, []) = (Inl ex, (w, []))))"
proof (intro conjI impI)
  assume h: "begin_call L (recording W) params0 ''update'' = Inr p
      \<and> parse_update_call L (recording W) p = Inr (q, u)
      \<and> permissions p = Some perms \<and> update_grant L (recording W) p perms q = Inr g"
  then have eq: "update L (recording W) params0 (w, [])
                 = update_bulk L (recording W) p perms g q u (w, [])"
    by (simp add: update_reaches_bulk)
  show "(FindStream_call q \<in> set (snd (snd (update L (recording W) params0 (w, []))))
           = denied (update_bulk_check L (recording W) p g q u))"
    unfolding eq by (rule update_bulk_log)
  show "update L (recording W) params0 (w, []) = updateLoop L (recording W) q u perms (w, [])"
    if "denied (update_bulk_check L (recording W) p g q u)"
    using that unfolding eq by (auto simp: update_bulk_cases denied_def split: sum.splits)
  show "\<forall>ex. update_bulk_check L (recording W) p g q u = Inl ex
                \<and> err_code ex \<noteq> ACCESS_DENIED
           \<longrightarrow> update L (recording W) params0 (w, []) = (Inl ex, (w, []))"
    unfolding eq by (auto simp: update_bulk_cases)
next
  assume h: "begin_call L (recording W) params0 ''upsert'' = Inr p
      \<and> parse_update_call L (recording W) p = Inr (q, u)
      \<and> permissions p = Some perms \<and> upsert_grant L (recording W) p perms q = Inr g"
  then have eq: "upsert L (recording W) params0 (w, [])
                 = upsert_bulk L (recording W) perms g q u (w, [])"
    by (simp add: upsert_reaches_bulk)
  show "(FindOne_call q \<in> set (snd (snd (upsert L (recording W) params0 (w, []))))
           = denied (upsert_bulk_check L g q u))"
    unfolding eq by (rule upsert_bulk_log)
  show "upsert L (recording W) params0 (w, []) = upsertLoop L (recording W) q u perms (w, [])"
    if "denied (upsert_bulk_check L g q u)"
    using that unfolding eq by (auto simp: upsert_bulk_cases denied_def split: sum.splits)
  show "\<forall>ex. upsert_bulk_check L g q u = Inl ex \<and> err_code ex \<noteq> ACCESS_DENIED
           \<longrightarrow> upsert L (recording W) params0 (w, []) = (Inl ex, (w, []))"
    unfolding eq by (auto simp: upsert_bulk_cases)
next
  assume h: "begin_call L (recording W) params0 ''remove'' = Inr p
      \<and> createQuery L (p_query p) = Inr q
      \<and> permissions p = Some perms \<and> remove_query_checks L (recording W) p perms q = Inr ()"
  then have eq: "remove L (recording W) params0 (w, [])
                 = remove_bulk L (recording W) perms q (w, [])"
    by (simp add: remove_reaches_bulk)
  show "(FindStream_call q \<in> set (snd (snd (remove L (recording W) params0 (w, []))))
           = denied (remove_bulk_check L (recording W) perms q))"
    unfolding eq by (rule remove_bulk_log)
  show "remove L (recording W) params0 (w, []) = removeLoop L (recording W) q perms (w, [])"
    if "denied (remove_bulk_check L (recording W) perms q)"
    using that unfolding eq by (auto simp: remove_bulk_cases denied_def split: sum.splits)
  show "\<forall>ex. remove_bulk_check L (recording W) perms q = Inl ex
                \<and> err_code ex \<noteq> ACCESS_DENIED
           \<longrightarrow> remove L (recording W) params0 (w, []) = (Inl ex, (w, []))"
    unfolding eq by (auto simp: remove_bulk_cases)
qed

theorem fallback_loop_exactly_on_access_denied_witness:
  "begin_call flat_libs (recording animal_wrapper)
      (changing tobyOnly (JObj [(''animalType'', JStr ''cat'')])
         (JObj [(''$set'', JObj [(''age'', JNum 10)])])) ''update''
     = Inr (preprocessed tobyOnly
         (changing tobyOnly (JObj [(''animalType'', JStr ''cat'')])
            (JObj [(''$set'', JObj [(''age'', JNum 10)])])))
   \<and> update_bulk_check flat_libs (recording animal_wrapper)
        (preprocessed tobyOnly
           (changing tobyOnly (JObj [(''animalType'', JStr ''cat'')])
              (JObj [(''$set'', JObj [(''age'', JNum 10)])])))
        (grant (tobyOnly ! 1)) (JObj [(''animalType'', JStr ''cat'')])
        (JObj [(''$set'', JObj [(''age'', JNum 10)])])
     = Inl (XError ACCESS_DENIED ''write'')
   \<and> FindStream_call (JObj [(''animalType'', JStr ''cat'')])
       \<in> set (snd (snd (update flat_libs (recording animal_wrapper)
                (changing tobyOnly (JObj [(''animalType'', JStr ''cat'')])
                   (JObj [(''$set'', JObj [(''age'', JNum 10)])]))
                (testAnimals, []))))
   \<and> update flat_libs (recording animal_wrapper)
        (changing tobyOnly (JObj [(''animalType'', JStr ''cat'')])
           (JObj [(''$set'', JObj [(''age'', JNum 10)])]))
        (testAnimals, [])
     = updateLoop flat_libs (recording animal_wrapper) (JObj [(''animalType'', JStr ''cat'')])
         (JObj [(''$set'', JObj [(''age'', JNum 10)])]) tobyOnly (testAnimals, [])"
proof -
  let ?q = "JObj [(''animalType'', JStr ''cat'')]"
  let ?u = "JObj [(''$set'', JObj [(''age'', JNum 10)])]"
  let ?p = "preprocessed tobyOnly (changing tobyOnly ?q ?u)"
  have a: "begin_call flat_libs (recording animal_wrapper) (changing tobyOnly ?q ?u) ''update''
           = Inr ?p"
    by (simp add: wrapper_defs perm_defs io_defs fake_defs flat_defs)
  have b: "parse_update_call flat_libs (recording animal_wrapper) ?p = Inr (?q, ?u)"
    by (simp add: wrapper_defs perm_defs io_defs fake_defs flat_defs)
  have c: "permissions ?p = Some tobyOnly"
    by (simp add: fake_defs)
  have d: "update_grant flat_libs (recording animal_wrapper) ?p tobyOnly ?q
           = Inr (grant (tobyOnly ! 1))"
    by (simp add: wrapper_defs perm_defs io_defs fake_defs flat_defs)
  have e: "update_bulk_check flat_libs (recording animal_wrapper) ?p (grant (tobyOnly ! 1)) ?q ?u
           = Inl (XError ACCESS_DENIED ''write'')"
    by (simp add: wrapper_defs perm_defs io_defs fake_defs flat_defs)
  have den: "denied (update_bulk_check flat_libs (recording animal_wrapper) ?p
                      (grant (tobyOnly ! 1)) ?q ?u)"
    unfolding e by (simp add: denied_def)
  from fallback_loop_exactly_on_access_denied
      [of flat_libs animal_wrapper "changing tobyOnly ?q ?u" ?p ?q ?u tobyOnly
          "grant (tobyOnly ! 1)" testAnimals, THEN conjunct1]
    a b c d den
  have "FindStream_call ?q
          \<in> set (snd (snd (update flat_libs (recording animal_wrapper)
                   (changing tobyOnly ?q ?u) (testAnimals, []))))"
    and "update flat_libs (recording animal_wrapper) (changing tobyOnly ?q ?u) (testAnimals, [])
         = updateLoop flat_libs (recording animal_wrapper) ?q ?u tobyOnly (testAnimals, [])"
    by blast+
  with a e show ?thesis by blast
qed

text \<open>
  C2 as stated fails for update: under a grant whose write mask covers the updated field
  \<^verbatim>\<open>animalType\<close> but not the exact-match field \<^verbatim>\<open>id\<close>, the check of the
  union of both fails on the resolved grant, and update still delegates the bulk
  operation to the store.
\<close>

theorem update_delegates_without_exact_match_coverage:
  "update_grant flat_libs (recording animal_wrapper)
      (preprocessed typeWriter
         (changing typeWriter (JObj [(''id'', JStr ''baz'')])
            (JObj [(''$set'', JObj [(''animalType'', JStr ''dog'')])])))
      typeWriter (JObj [(''id'', JStr ''baz'')])
     = Inr (grant (hd typeWriter))
   \<and> check_fields flat_libs (grant (hd typeWriter))
        (lodash_union
           [map fst (getExactMatches flat_libs (JObj [(''id'', JStr ''baz'')])),
            getUpdatedFields flat_libs (JObj [(''$set'', JObj [(''animalType'', JStr ''dog'')])])])
        ''writeMask.''
     = Inl (XError ACCESS_DENIED ''writeMask.id'')
   \<and> update flat_libs (recording animal_wrapper)
        (changing typeWriter (JObj [(''id'', JStr ''baz'')])
           (JObj [(''$set'', JObj [(''animalType'', JStr ''dog'')])]))
        (testAnimals, [])
     = (Inr (RVal (JNum 1)),
        ([animal 1 ''foo'' ''cat'' ''Toby'' 5, animal 2 ''bar'' ''dog'' ''Ruff'' 2,
          animal 3 ''baz'' ''dog'' ''Felix'' 8, animal 4 ''qux'' ''horse'' ''Sammy'' 4],
         [Update_call (JObj [(''id'', JStr ''baz'')])
            (JObj [(''$set'', JObj [(''animalType'', JStr ''dog'')])])]))"
  by (simp add: update_def update_grant_def update_bulk_def update_bulk_check_def
      begin_call_def preprocessParams_def parse_update_call_def containsProtected_def
      exactMatchObj_def lodash_union_def recording_def logged_def logging_def
      perm_defs io_defs fake_defs flat_defs Let_def)

text \<open>
  C2, amended. For an upsert call with permissions that reaches the bulk check, the
  store's upsert is called exactly when the resolved grant passes the check of the
  \<^verbatim>\<open>write\<close> capability and the write-mask check of the union of the query's
  exact-match field names and the update's updated fields. For an update call the
  store's update is called exactly when the resolved grant passes the
  \<^verbatim>\<open>write\<close> check and the write-mask check of the updated fields alone, and,
  when the model has private fields and allowPrivateFields is not set, the global grant
  passes the write-mask check of the exact matches.
\<close>

theorem bulk_operation_only_after_check:
  "(begin_call L (recording W) params0 ''upsert'' = Inr p
      \<and> parse_update_call L (recording W) p = Inr (q, u)
      \<and> permissions p = Some perms \<and> upsert_grant L (recording W) p perms q = Inr g
    \<longrightarrow> (Upsert_call q u \<in> set (snd (snd (upsert L (recording W) params0 (w, []))))
           = (check_key L g ''write'' = Inr ()
              \<and> check_fields L g
                   (lodash_union [map fst (getExactMatches L q), getUpdatedFields L u])
                   ''writeMask.'' = Inr ())))
   \<and> (begin_call L (recording W) params0 ''update'' = Inr p
      \<and> parse_update_call L (recording W) p = Inr (q, u)
      \<and> permissions p = Some perms \<and> update_grant L (recording W) p perms q = Inr g
    \<longrightarrow> (Update_call q u \<in> set (snd (snd (update L (recording W) params0 (w, []))))
           = (check_key L g ''write'' = Inr ()
              \<and> check_fields L g (getUpdatedFields L u) ''writeMask.'' = Inr ()
              \<and> (if hasPrivateFields W \<and> \<not> allowPrivateFields p
                  then rthen (getTargetGrant L (globalPermissions W) ''global''
                                (exactMatchObj L q))
                         (\<lambda>gg. check_matches L gg (getExactMatches L q) ''writeMask.'')
                  else Inr ()) = Inr ())))"
proof (intro conjI impI)
  assume h: "begin_call L (recording W) params0 ''upsert'' = Inr p
      \<and> parse_update_call L (recording W) p = Inr (q, u)
      \<and> permissions p = Some perms \<and> upsert_grant L (recording W) p perms q = Inr g"
  then have eq: "upsert L (recording W) params0 (w, [])
                 = upsert_bulk L (recording W) perms g q u (w, [])"
    by (simp add: upsert_reaches_bulk)
  have pass: "(upsert_bulk_check L g q u = Inr ())
      = (check_key L g ''write'' = Inr ()
         \<and> check_fields L g
              (lodash_union [map fst (getExactMatches L q), getUpdatedFields L u])
              ''writeMask.'' = Inr ())"
    by (simp add: upsert_bulk_check_def Let_def unit_steps)
  have "(Upsert_call q u \<in> set (snd (snd (upsert_bulk L (recording W) perms g q u (w, [])))))
        = (upsert_bulk_check L g q u = Inr ())"
    using upsertLoop_never_delegates [of "Upsert_call q u" L W q u perms w]
    by (auto simp: upsert_bulk_cases split: sum.splits prod.splits)
  then show "Upsert_call q u \<in> set (snd (snd (upsert L (recording W) params0 (w, []))))
           = (check_key L g ''write'' = Inr ()
              \<and> check_fields L g
                   (lodash_union [map fst (getExactMatches L q), getUpdatedFields L u])
                   ''writeMask.'' = Inr ())"
    unfolding eq pass .
next
  assume h: "begin_call L (recording W) params0 ''update'' = Inr p
      \<and> parse_update_call L (recording W) p = Inr (q, u)
      \<and> permissions p = Some perms \<and> update_grant L (recording W) p perms q = Inr g"
  then have eq: "update L (recording W) params0 (w, [])
                 = update_bulk L (recording W) p perms g q u (w, [])"
    by (simp add: update_reaches_bulk)
  have pass: "(update_bulk_check L W p g q u = Inr ())
      = (check_key L g ''write'' = Inr ()
              \<and> check_fields L g (getUpdatedFields L u) ''writeMask.'' = Inr ()
              \<and> (if hasPrivateFields W \<and> \<not> allowPrivateFields p
                  then rthen (getTargetGrant L (globalPermissions W) ''global''
                                (exactMatchObj L q))
                         (\<lambda>gg. check_matches L gg (getExactMatches L q) ''writeMask.'')
                  else Inr ()) = Inr ())"
    by (simp add: update_bulk_check_def unit_steps)
  have "(Update_call q u \<in> set (snd (snd (update_bulk L (recording W) p perms g q u (w, [])))))
        = (update_bulk_check L W p g q u = Inr ())"
    using updateLoop_never_delegates [of "Update_call q u" L W q u perms w]
    by (auto simp: update_bulk_cases split: sum.splits prod.splits)
  then show "Update_call q u \<in> set (snd (snd (update L (recording W) params0 (w, []))))
           = (check_key L g ''write'' = Inr ()
              \<and> check_fields L g (getUpdatedFields L u) ''writeMask.'' = Inr ()
              \<and> (if hasPrivateFields W \<and> \<not> allowPrivateFields p
                  then rthen (getTargetGrant L (globalPermissions W) ''global''
                                (exactMatchObj L q))
                         (\<lambda>gg. check_matches L gg (getExactMatches L q) ''writeMask.'')
                  else Inr ()) = Inr ())"
    unfolding eq pass .
qed

theorem bulk_operation_only_after_check_witness:
  "begin_call flat_libs (recording animal_wrapper)
      (changing typeWriter (JObj [(''id'', JStr ''baz'')])
         (JObj [(''$set'', JObj [(''animalType'', JStr ''dog'')])])) ''update''
     = Inr (preprocessed typeWriter
         (changing typeWriter (JObj [(''id'', JStr ''baz'')])
            (JObj [(''$set'', JObj [(''animalType'', JStr ''dog'')])])))
   \<and> Update_call (JObj [(''id'', JStr ''baz'')])
        (JObj [(''$set'', JObj [(''animalType'', JStr ''dog'')])])
       \<in> set (snd (snd (update flat_libs (recording animal_wrapper)
                (changing typeWriter (JObj [(''id'', JStr ''baz'')])
                   (JObj [(''$set'', JObj [(''animalType'', JStr ''dog'')])]))
                (testAnimals, []))))
   \<and> check_key flat_libs (grant (hd typeWriter)) ''write'' = Inr ()
   \<and> check_fields flat_libs (grant (hd typeWriter))
        (getUpdatedFields flat_libs (JObj [(''$set'', JObj [(''animalType'', JStr ''dog'')])]))
        ''writeMask.'' = Inr ()"
proof -
  let ?q = "JObj [(''id'', JStr ''baz'')]"
  let ?u = "JObj [(''$set'', JObj [(''animalType'', JStr ''dog'')])]"
  let ?p = "preprocessed typeWriter (changing typeWriter ?q ?u)"
  have a: "begin_call flat_libs (recording animal_wrapper) (changing typeWriter ?q ?u) ''update''
           = Inr ?p"
    by (simp add: wrapper_defs perm_defs io_defs fake_defs flat_defs)
  have b: "parse_update_call flat_libs (recording animal_wrapper) ?p = Inr (?q, ?u)"
    by (simp add: wrapper_defs perm_defs io_defs fake_defs flat_defs)
  have c: "permissions ?p = Some typeWriter"
    by (simp add: fake_defs)
  have d: "update_grant flat_libs (recording animal_wrapper) ?p typeWriter ?q
           = Inr (grant (hd typeWriter))"
    by (simp add: wrapper_defs perm_defs io_defs fake_defs flat_defs)
  have e: "Update_call ?q ?u
       \<in> set (snd (snd (update flat_libs (recording animal_wrapper)
                (changing typeWriter ?q ?u) (testAnimals, []))))"
    by (simp add: wrapper_defs perm_defs io_defs fake_defs flat_defs Let_def)
  show ?thesis
    using bulk_operation_only_after_check
      [of flat_libs animal_wrapper "changing typeWriter ?q ?u" ?p ?q ?u typeWriter
          "grant (hd typeWriter)" testAnimals, THEN conjunct2]
      a b c d e
    by simp
qed

subsection \<open>The fallback loops\<close>

lemma each_stops_at_failure:
  assumes "map f ds1 = map Inr ds1'" and "f d = Inl e"
    and "io_each g ds1' w0 = (Inr (), w1)"
  shows "io_each (\<lambda>x. io_then (io_lift (f x)) g) (ds1 @ d # ds2) w0 = (Inl e, w1)"
proof -
  define F where "F = (\<lambda>x. io_then (io_lift (f x)) g)"
  have Fd: "F d w = (Inl e, w)" for w
    using assms(2) by (simp add: F_def io_then_def io_lift_def)
  have "io_each F (ds1 @ d # ds2) w0 = (Inl e, w1)"
    using assms(1,3)
  proof (induction ds1 arbitrary: ds1' w0)
    case Nil
    then show ?case by (simp add: Fd)
  next
    case (Cons x xs)
    then obtain y ys where ds1': "ds1' = y # ys" and fx: "f x = Inr y"
      and rest: "map f xs = map Inr ys"
      by (cases ds1') auto
    obtain r w' where gy: "g y w0 = (r, w')" by (cases "g y w0")
    from Cons.prems(2) ds1' gy obtain z where r: "r = Inr z"
      and tail: "io_each g ys w' = (Inr (), w1)"
      by (cases r) auto
    have Fx: "F x w0 = (Inr z, w')"
      using fx gy r by (simp add: F_def io_then_def io_lift_def)
    have "io_each F (xs @ d # ds2) w' = (Inl e, w1)"
      using Cons.IH [OF rest tail] .
    then show ?case by (simp add: Fx)
  qed
  then show ?thesis by (simp add: F_def)
qed

lemma each_logged:
  "io_each g ds w0 = (Inr (), w1) \<Longrightarrow>
   io_each (\<lambda>x. logging (c x) (g x)) ds (w0, l) = (Inr (), (w1, l @ map c ds))"
proof (induction ds arbitrary: w0 l)
  case Nil
  then show ?case by simp
next
  case (Cons x xs)
  obtain r w' where gx: "g x w0 = (r, w')" by (cases "g x w0")
  from Cons.prems gx obtain z where r: "r = Inr z" and tail: "io_each g xs w' = (Inr (), w1)"
    by (cases r) auto
  show ?case using Cons.IH [OF tail, of "l @ [c x]"] gx r by (simp add: logging_def)
qed

lemma update_doc_recording [simp]:
  "update_doc L (recording W) = update_doc L W"
  by (intro ext) (simp add: update_doc_def recording_def)

lemma remove_allowed_recording [simp]:
  "remove_allowed L (recording W) = remove_allowed L W"
  by (intro ext) (simp add: remove_allowed_def recording_def)

lemma updateLoop_stops:
  assumes "findStream (model W) q w = (Inr (ds1 @ d # ds2), w0)"
    and "map (update_doc L W perms (getUpdatedFields L u) u) ds1 = map Inr ds1'"
    and "io_each (save (model W)) ds1' w0 = (Inr (), w1)"
    and "update_doc L W perms (getUpdatedFields L u) u d = Inl e"
  shows "updateLoop L W q u perms w = (Inl e, w1)"
proof -
  have "io_each (update_each L W perms (getUpdatedFields L u) u) (ds1 @ d # ds2) w0 = (Inl e, w1)"
    unfolding update_each_def
    using assms(2) assms(4) assms(3) by (rule each_stops_at_failure)
  then show ?thesis
    using assms(1) by (simp add: updateLoop_def io_then_def)
qed

lemma removeLoop_stops:
  assumes "findStream (model W) q w = (Inr (ds1 @ d # ds2), w0)"
    and "\<forall>x \<in> set ds1. remove_allowed L W perms x = Inr ()"
    and "io_each (remove_doc (model W)) ds1 w0 = (Inr (), w1)"
    and "remove_allowed L W perms d = Inl e"
  shows "removeLoop L W q perms w = (Inl e, w1)"
proof -
  have m: "map (\<lambda>x. rthen (remove_allowed L W perms x) (\<lambda>y. Inr x)) ds1 = map Inr ds1"
    using assms(2) by (simp add: rthen_def)
  have fd: "rthen (remove_allowed L W perms d) (\<lambda>y. Inr d) = Inl e"
    using assms(4) by (simp add: rthen_def)
  have eq: "remove_each L W perms
            = (\<lambda>x. io_then (io_lift (rthen (remove_allowed L W perms x) (\<lambda>y. Inr x)))
                      (remove_doc (model W)))"
    by (rule ext, rule ext)
       (simp add: remove_each_def io_then_def io_lift_def rthen_def split: sum.splits)
  have "io_each (remove_each L W perms) (ds1 @ d # ds2) w0 = (Inl e, w1)"
    unfolding eq
    using m fd assms(3) by (rule each_stops_at_failure)
  then show ?thesis
    using assms(1) by (simp add: removeLoop_def io_then_def)
qed

text \<open>
  C5. The fallback loops of update and remove take the matching documents one after the
  other. When the first N-1 documents pass (and their saves or removals succeed) and
  the authorization of the Nth fails, the call rejects with that error and the store is
  in the state the N-1 saves or removals left, in their order; over a recording model
  the calls are the stream and those N-1 saves or removals, and nothing after them: no
  rollback, and the failing document is not passed over.
\<close>

theorem fallback_loops_stop_without_rollback:
  "(findStream (model W) q w = (Inr (ds1 @ d # ds2), w0)
      \<and> map (update_doc L W perms (getUpdatedFields L u) u) ds1 = map Inr ds1'
      \<and> io_each (save (model W)) ds1' w0 = (Inr (), w1)
      \<and> update_doc L W perms (getUpdatedFields L u) u d = Inl e
    \<longrightarrow> updateLoop L W q u perms w = (Inl e, w1)
        \<and> updateLoop L (recording W) q u perms (w, [])
          = (Inl e, (w1, FindStream_call q # map Save_call ds1')))
   \<and> (findStream (model W) q w = (Inr (ds1 @ d # ds2), w0)
      \<and> (\<forall>x \<in> set ds1. remove_allowed L W perms x = Inr ())
      \<and> io_each (remove_doc (model W)) ds1 w0 = (Inr (), w1)
      \<and> remove_allowed L W perms d = Inl e
    \<longrightarrow> removeLoop L W q perms w = (Inl e, w1)
        \<and> removeLoop L (recording W) q perms (w, [])
          = (Inl e, (w1, FindStream_call q # map RemoveDoc_call ds1)))"
proof (intro conjI impI)
  assume h: "findStream (model W) q w = (Inr (ds1 @ d # ds2), w0)
      \<and> map (update_doc L W perms (getUpdatedFields L u) u) ds1 = map Inr ds1'
      \<and> io_each (save (model W)) ds1' w0 = (Inr (), w1)
      \<and> update_doc L W perms (getUpdatedFields L u) u d = Inl e"
  then have h1: "findStream (model W) q w = (Inr (ds1 @ d # ds2), w0)"
    and h2: "map (update_doc L W perms (getUpdatedFields L u) u) ds1 = map Inr ds1'"
    and h3: "io_each (save (model W)) ds1' w0 = (Inr (), w1)"
    and h4: "update_doc L W perms (getUpdatedFields L u) u d = Inl e"
    by blast+
  show "updateLoop L W q u perms w = (Inl e, w1)"
    using h1 h2 h3 h4 by (rule updateLoop_stops)
  have s: "save (model (recording W)) = (\<lambda>x. logging (Save_call x) (save (model W) x))"
    by (rule ext) simp
  have r3: "io_each (save (model (recording W))) ds1' (w0, [FindStream_call q])
        = (Inr (), (w1, [FindStream_call q] @ map Save_call ds1'))"
    unfolding s using h3 by (rule each_logged)
  have r1: "findStream (model (recording W)) q (w, [])
        = (Inr (ds1 @ d # ds2), (w0, [FindStream_call q]))"
    using h1 by (simp add: logging_def)
  have r2: "map (update_doc L (recording W) perms (getUpdatedFields L u) u) ds1 = map Inr ds1'"
    using h2 by simp
  have r4: "update_doc L (recording W) perms (getUpdatedFields L u) u d = Inl e"
    using h4 by simp
  show "updateLoop L (recording W) q u perms (w, [])
          = (Inl e, (w1, FindStream_call q # map Save_call ds1'))"
    using updateLoop_stops [OF r1 r2 r3 r4] by simp
next
  assume h: "findStream (model W) q w = (Inr (ds1 @ d # ds2), w0)
      \<and> (\<forall>x \<in> set ds1. remove_allowed L W perms x = Inr ())
      \<and> io_each (remove_doc (model W)) ds1 w0 = (Inr (), w1)
      \<and> remove_allowed L W perms d = Inl e"
  then have h1: "findStream (model W) q w = (Inr (ds1 @ d # ds2), w0)"
    and h2: "\<forall>x \<in> set ds1. remove_allowed L W perms x = Inr ()"
    and h3: "io_each (remove_doc (model W)) ds1 w0 = (Inr (), w1)"
    and h4: "remove_allowed L W perms d = Inl e"
    by blast+
  show "removeLoop L W q perms w = (Inl e, w1)"
    using h1 h2 h3 h4 by (rule removeLoop_stops)
  have s: "remove_doc (model (recording W))
           = (\<lambda>x. logging (RemoveDoc_call x) (remove_doc (model W) x))"
    by (rule ext) simp
  have r3: "io_each (remove_doc (model (recording W))) ds1 (w0, [FindStream_call q])
        = (Inr (), (w1, [FindStream_call q] @ map RemoveDoc_call ds1))"
    unfolding s using h3 by (rule each_logged)
  have r1: "findStream (model (recording W)) q (w, [])
        = (Inr (ds1 @ d # ds2), (w0, [FindStream_call q]))"
    using h1 by (simp add: logging_def)
  have r2: "\<forall>x \<in> set ds1. remove_allowed L (recording W) perms x = Inr ()"
    using h2 by simp
  have r4: "remove_allowed L (recording W) perms d = Inl e"
    using h4 by simp
  show "removeLoop L (recording W) q perms (w, [])
          = (Inl e, (w1, FindStream_call q # map RemoveDoc_call ds1))"
    using removeLoop_stops [OF r1 r2 r3 r4] by simp
qed

theorem fallback_loops_stop_without_rollback_witness:
  "findStream (model animal_wrapper) (JObj [(''animalType'', JStr ''cat'')]) testAnimals
     = (Inr ([animal 1 ''foo'' ''cat'' ''Toby'' 5] @ animal 3 ''baz'' ''cat'' ''Felix'' 8 # []),
        testAnimals)
   \<and> update_doc flat_libs animal_wrapper tobyOnly [''age'']
        (JObj [(''$set'', JObj [(''age'', JNum 10)])]) (animal 1 ''foo'' ''cat'' ''Toby'' 5)
     = Inr (animal 1 ''foo'' ''cat'' ''Toby'' 10)
   \<and> update_doc flat_libs animal_wrapper tobyOnly [''age'']
        (JObj [(''$set'', JObj [(''age'', JNum 10)])]) (animal 3 ''baz'' ''cat'' ''Felix'' 8)
     = Inl (XError ACCESS_DENIED ''write'')
   \<and> updateLoop flat_libs animal_wrapper (JObj [(''animalType'', JStr ''cat'')])
        (JObj [(''$set'', JObj [(''age'', JNum 10)])]) tobyOnly testAnimals
     = (Inl (XError ACCESS_DENIED ''write''),
        [animal 1 ''foo'' ''cat'' ''Toby'' 10, animal 2 ''bar'' ''dog'' ''Ruff'' 2,
         animal 3 ''baz'' ''cat'' ''Felix'' 8, animal 4 ''qux'' ''horse'' ''Sammy'' 4])"
proof -
  let ?q = "JObj [(''animalType'', JStr ''cat'')]"
  let ?u = "JObj [(''$set'', JObj [(''age'', JNum 10)])]"
  let ?foo = "animal 1 ''foo'' ''cat'' ''Toby'' 5"
  let ?baz = "animal 3 ''baz'' ''cat'' ''Felix'' 8"
  let ?w1 = "[animal 1 ''foo'' ''cat'' ''Toby'' 10, animal 2 ''bar'' ''dog'' ''Ruff'' 2,
         animal 3 ''baz'' ''cat'' ''Felix'' 8, animal 4 ''qux'' ''horse'' ''Sammy'' 4]"
  have fs: "getUpdatedFields flat_libs ?u = [''age'']"
    by (simp add: flat_defs)
  have a: "findStream (model animal_wrapper) ?q testAnimals = (Inr ([?foo] @ ?baz # []), testAnimals)"
    by (simp add: fake_defs flat_defs)
  have b: "map (update_doc flat_libs animal_wrapper tobyOnly (getUpdatedFields flat_libs ?u) ?u) [?foo]
           = map Inr [animal 1 ''foo'' ''cat'' ''Toby'' 10]"
    by (simp add: wrapper_defs perm_defs io_defs fake_defs flat_defs)
  have c: "io_each (save (model animal_wrapper)) [animal 1 ''foo'' ''cat'' ''Toby'' 10] testAnimals
           = (Inr (), ?w1)"
    by (simp add: fake_defs)
  have d: "update_doc flat_libs animal_wrapper tobyOnly (getUpdatedFields flat_libs ?u) ?u ?baz
           = Inl (XError ACCESS_DENIED ''write'')"
    by (simp add: wrapper_defs perm_defs io_defs fake_defs flat_defs)
  show ?thesis
    using fallback_loops_stop_without_rollback
      [of animal_wrapper ?q testAnimals "[?foo]" ?baz "[]" testAnimals flat_libs tobyOnly ?u
          "[animal 1 ''foo'' ''cat'' ''Toby'' 10]" ?w1 "XError ACCESS_DENIED ''write''",
       THEN conjunct1]
      a b c d fs
    by simp
qed

section \<open>Replacing one document: put\<close>

lemma put_reaches_store:
  "put_begin L W params0 = Inr (p, dat, keys) \<Longrightarrow>
   put L W params0 w =
     (case put_store L W p dat keys w of
        (Inl e, w') \<Rightarrow> (Inl e, w')
      | (Inr saved, w') \<Rightarrow> (Inr (put_result L W keys saved), w'))"
  by (simp add: put_def io_then_def io_lift_def io_return_def split: prod.splits sum.splits)

lemma put_store_found:
  "findOne (model W) (JObj keys) w = (Inr d, w') \<Longrightarrow>
   put_store L W p dat keys w =
     (case put_found L W p d dat of
        (Inr d', dat') \<Rightarrow> save (model W) d' w'
      | (Inl err, dat') \<Rightarrow>
          (case put_not_found L W p dat' err of
             Inl e \<Rightarrow> (Inl e, w') | Inr d' \<Rightarrow> save (model W) d' w'))"
  by (simp add: put_store_def io_then_def split: prod.splits sum.splits)

lemma put_store_missing:
  "findOne (model W) (JObj keys) w = (Inl err, w') \<Longrightarrow>
   put_store L W p dat keys w =
     (case put_not_found L W p dat err of
        Inl e \<Rightarrow> (Inl e, w') | Inr d' \<Rightarrow> save (model W) d' w')"
  by (simp add: put_store_def io_then_def split: prod.splits sum.splits)

lemma put_begin_strips:
  assumes "put_begin L W params0 = Inr (p, dat, keys)"
  shows "dat = (if hasProtectedFields W \<and> \<not> overwriteProtected p
               then filterObject L (subtractMasks (publicPrivateMask W) (protectedMask W))
                      (p_data p)
               else p_data p)"
  using assms
  by (auto simp: put_begin_def put_prepare_def rthen_def Let_def split: sum.splits if_splits)

lemma checkDiff_new_document:
  assumes "\<not> ow" and "hasProtectedFields W"
    and "\<forall>f \<in> set (protectedFields W). getPath L dat f = JUndefined"
    and "getTargetGrant L perms (permissionsTarget W) dat = Inr g"
    and "createFromDiff L (data d) dat = Inr patch"
    and "createUpdate L patch False = Inr du"
  shows "checkDiffPermissions L W perms d dat ow =
     rthen (check_key L g ''write'') (\<lambda>x.
       check_fields L g
         (filter (\<lambda>f. f \<notin> set (protectedFields W)) (removeAll ''_id'' (getUpdatedFields L du)))
         ''writeMask.'')"
  using assms by (simp add: checkDiffPermissions_def rthen_def Let_def list_ex_iff)




text \<open>
  C7 as stated fails in its cause: a field at its schema default is not left out of
  the authorization diff. A fresh \<^verbatim>\<open>Animal\<close> holds the defaults of \<^verbatim>\<open>animalType\<close>
  and \<^verbatim>\<open>coolness\<close>. In the claim's own case, a payload with \<^verbatim>\<open>id\<close> and
  \<^verbatim>\<open>animalType\<close>, the diff against it lists \<^verbatim>\<open>coolness\<close>. And a caller whose
  write mask covers \<^verbatim>\<open>id\<close> alone, putting \<^verbatim>\<open>{ id: 'asdf' }\<close>, is denied for
  \<^verbatim>\<open>writeMask.animalType\<close>, a field they left at its default.
\<close>

theorem put_charges_omitted_default:
  "data (create (model animal_wrapper) JUndefined)
     = JObj [(''animalType'', JStr ''dog''), (''coolness'', JNum 4)]
   \<and> createFromDiff flat_libs (data (create (model animal_wrapper) JUndefined))
        (JObj [(''id'', JStr ''asdf''), (''animalType'', JStr ''frog'')])
     = Inr (JObj [(''$set'', JObj [(''id'', JStr ''asdf''), (''animalType'', JStr ''frog'')]),
                  (''$unset'', JObj [(''coolness'', JBool True)])])
   \<and> getUpdatedFields flat_libs
        (JObj [(''$set'', JObj [(''id'', JStr ''asdf''), (''animalType'', JStr ''frog'')]),
               (''$unset'', JObj [(''coolness'', JBool True)])])
     = [''id'', ''animalType'', ''coolness'']
   \<and> put flat_libs animal_wrapper (putting idWriter (JObj [(''id'', JStr ''asdf'')]))
        testAnimals
     = (Inl (XError ACCESS_DENIED ''writeMask.animalType''), testAnimals)"
  by (simp add: put_defs perm_defs io_defs fake_defs flat_defs Let_def)

text \<open>
  C7, amended. For a put call that finds no document under its keys, without
  overwriteProtected, on a model with protected fields: the payload that is authorized
  and stored is the caller's data filtered by the mask of everything but the protected
  paths (line 537). When that filter leaves no protected field, the grant resolved from
  the filtered payload holds \<^verbatim>\<open>write\<close>, and its write mask covers the fields of the diff
  against a fresh default document other than the protected ones, the put succeeds and
  saves the document that \<^verbatim>\<open>model.create\<close> makes from the filtered payload. No coverage
  of a protected field is asked for, because the protected paths are removed from the
  diff's field list (line 647). Where \<^verbatim>\<open>model.create\<close> gives a field that its data
  lacks the value a fresh document has, the document saved holds at every protected
  field the schema's default, whatever the caller sent for it. The witness is the
  test's case: the caller sends \<^verbatim>\<open>coolness = 3\<close>, the grant's write mask does not cover
  \<^verbatim>\<open>coolness\<close>, and the stored document has the default \<^verbatim>\<open>coolness = 4\<close>.
\<close>

theorem put_creates_with_protected_defaults:
  assumes reach: "put_begin L W params0 = Inr (p, dat, keys)"
    and missing: "findOne (model W) (JObj keys) w = (Inl err, w')" "err_code err = NOT_FOUND"
    and perms: "permissions p = Some perms"
    and flags: "\<not> overwriteProtected p" "hasProtectedFields W"
    and strips: "\<forall>f \<in> set (protectedFields W).
         getPath L (filterObject L (subtractMasks (publicPrivateMask W) (protectedMask W))
                      (p_data p)) f = JUndefined"
    and defaults: "\<forall>f \<in> set (protectedFields W).
         getPath L dat f = JUndefined \<longrightarrow>
         getPath L (data (create (model W) dat)) f
           = getPath L (data (create (model W) JUndefined)) f"
    and grant: "getTargetGrant L perms (permissionsTarget W) dat = Inr g"
    and diff: "createFromDiff L (data (create (model W) JUndefined)) dat = Inr patch"
      "createUpdate L patch False = Inr du"
    and can_write: "check_key L g ''write'' = Inr ()"
    and covered: "check_fields L g
         (filter (\<lambda>f. f \<notin> set (protectedFields W)) (removeAll ''_id'' (getUpdatedFields L du)))
         ''writeMask.'' = Inr ()"
    and saved: "save (model W) (create (model W) dat) w' = (Inr saved, w'')"
  shows "dat = filterObject L (subtractMasks (publicPrivateMask W) (protectedMask W)) (p_data p)
       \<and> put L W params0 w = (Inr (put_result L W keys saved), w'')
       \<and> (\<forall>f \<in> set (protectedFields W).
            getPath L (data (create (model W) dat)) f
              = getPath L (data (create (model W) JUndefined)) f)"
proof -
  have filtered: "dat = filterObject L (subtractMasks (publicPrivateMask W) (protectedMask W))
                          (p_data p)"
    using put_begin_strips [OF reach] flags by simp
  then have stripped: "\<forall>f \<in> set (protectedFields W). getPath L dat f = JUndefined"
    using strips by simp
  have "checkDiffPermissions L W perms (create (model W) JUndefined) dat (overwriteProtected p)
        = Inr ()"
    using checkDiff_new_document [OF flags stripped grant diff] can_write covered
    by (simp add: rthen_def)
  then have "put_not_found L W p dat err = Inr (create (model W) dat)"
    using missing(2) perms by (simp add: put_not_found_def rthen_def)
  then have "put_store L W p dat keys w = (Inr saved, w'')"
    using missing(1) saved by (simp add: put_store_missing)
  then have "put L W params0 w = (Inr (put_result L W keys saved), w'')"
    using reach by (simp add: put_reaches_store)
  then show ?thesis using filtered stripped defaults by blast
qed

theorem put_creates_with_protected_defaults_witness:
  "put_begin flat_libs animal_wrapper
      (putting partialWrite
         (JObj [(''id'', JStr ''asdf''), (''animalType'', JStr ''frog''),
                (''coolness'', JNum 3), (''favNumber'', JNum 6)]))
     = Inr (preprocessed partialWrite
              (putting partialWrite
                 (JObj [(''id'', JStr ''asdf''), (''animalType'', JStr ''frog''),
                        (''coolness'', JNum 3), (''favNumber'', JNum 6)])),
            JObj [(''id'', JStr ''asdf''), (''animalType'', JStr ''frog'')],
            [(''id'', JStr ''asdf'')])
   \<and> check_fields flat_libs (grant (hd partialWrite)) [''coolness''] ''writeMask.''
     = Inl (XError ACCESS_DENIED ''writeMask.coolness'')
   \<and> put flat_libs animal_wrapper
        (putting partialWrite
           (JObj [(''id'', JStr ''asdf''), (''animalType'', JStr ''frog''),
                  (''coolness'', JNum 3), (''favNumber'', JNum 6)]))
        testAnimals
     = (Inr (JObj [(''keys'', JObj [(''id'', JStr ''asdf'')])]),
        testAnimals
        @ [\<lparr>handle = 5,
            data = JObj [(''id'', JStr ''asdf''), (''animalType'', JStr ''frog''),
                         (''coolness'', JNum 4)]\<rparr>])
   \<and> getPath flat_libs
        (data (create (model animal_wrapper)
                 (JObj [(''id'', JStr ''asdf''), (''animalType'', JStr ''frog'')])))
        ''coolness''
     = JNum 4"
proof -
  let ?sent = "JObj [(''id'', JStr ''asdf''), (''animalType'', JStr ''frog''),
                     (''coolness'', JNum 3), (''favNumber'', JNum 6)]"
  let ?dat = "JObj [(''id'', JStr ''asdf''), (''animalType'', JStr ''frog'')]"
  let ?p = "preprocessed partialWrite (putting partialWrite ?sent)"
  let ?patch = "JObj [(''$set'', ?dat), (''$unset'', JObj [(''coolness'', JBool True)])]"
  let ?new = "\<lparr>handle = 5,
            data = JObj [(''id'', JStr ''asdf''), (''animalType'', JStr ''frog''),
                         (''coolness'', JNum 4)]\<rparr>"
  have a: "put_begin flat_libs animal_wrapper (putting partialWrite ?sent)
           = Inr (?p, ?dat, [(''id'', JStr ''asdf'')])"
    by (simp add: put_defs perm_defs io_defs fake_defs flat_defs)
  have b: "findOne (model animal_wrapper) (JObj [(''id'', JStr ''asdf'')]) testAnimals
           = (Inl (XError NOT_FOUND ''Document not found''), testAnimals)"
    by (simp add: fake_defs flat_defs)
  have c: "err_code (XError NOT_FOUND ''Document not found'') = NOT_FOUND"
    by simp
  have d: "permissions ?p = Some partialWrite" "\<not> overwriteProtected ?p"
    "hasProtectedFields animal_wrapper"
    by (simp_all add: fake_defs)
  have e: "\<forall>f \<in> set (protectedFields animal_wrapper).
         getPath flat_libs
           (filterObject flat_libs
              (subtractMasks (publicPrivateMask animal_wrapper) (protectedMask animal_wrapper))
              (p_data ?p)) f = JUndefined"
    by (simp add: fake_defs flat_defs)
  have e': "\<forall>f \<in> set (protectedFields animal_wrapper).
         getPath flat_libs ?dat f = JUndefined \<longrightarrow>
         getPath flat_libs (data (create (model animal_wrapper) ?dat)) f
           = getPath flat_libs (data (create (model animal_wrapper) JUndefined)) f"
    by (simp add: fake_defs flat_defs)
  have f: "getTargetGrant flat_libs partialWrite (permissionsTarget animal_wrapper) ?dat
           = Inr (grant (hd partialWrite))"
    by (simp add: perm_defs fake_defs flat_defs)
  have g: "createFromDiff flat_libs (data (create (model animal_wrapper) JUndefined)) ?dat
           = Inr ?patch"
    by (simp add: fake_defs flat_defs)
  have h: "createUpdate flat_libs ?patch False = Inr ?patch"
    by (simp add: flat_defs)
  have i: "check_key flat_libs (grant (hd partialWrite)) ''write'' = Inr ()"
    by (simp add: perm_defs flat_defs)
  have j: "check_fields flat_libs (grant (hd partialWrite))
         (filter (\<lambda>f. f \<notin> set (protectedFields animal_wrapper))
            (removeAll ''_id'' (getUpdatedFields flat_libs ?patch)))
         ''writeMask.'' = Inr ()"
    by (simp add: perm_defs fake_defs flat_defs)
  have k: "save (model animal_wrapper) (create (model animal_wrapper) ?dat) testAnimals
           = (Inr ?new, testAnimals @ [?new])"
    by (simp add: fake_defs flat_defs Let_def)
  have l: "check_fields flat_libs (grant (hd partialWrite)) [''coolness''] ''writeMask.''
     = Inl (XError ACCESS_DENIED ''writeMask.coolness'')"
    by (simp add: perm_defs flat_defs)
  have m: "put_result flat_libs animal_wrapper [(''id'', JStr ''asdf'')] ?new
           = JObj [(''keys'', JObj [(''id'', JStr ''asdf'')])]"
    by (simp add: put_defs fake_defs flat_defs)
  have n: "getPath flat_libs (data (create (model animal_wrapper) JUndefined)) ''coolness''
           = JNum 4"
    by (simp add: fake_defs flat_defs)
  have o: "''coolness'' \<in> set (protectedFields animal_wrapper)"
    by (simp add: fake_defs)
  note t = put_creates_with_protected_defaults [OF a b c d e e' f g h i j k]
  from t have t2: "put flat_libs animal_wrapper (putting partialWrite ?sent) testAnimals
        = (Inr (put_result flat_libs animal_wrapper [(''id'', JStr ''asdf'')] ?new),
           testAnimals @ [?new])"
    by blast
  from t o have t3: "getPath flat_libs (data (create (model animal_wrapper) ?dat)) ''coolness''
        = getPath flat_libs (data (create (model animal_wrapper) JUndefined)) ''coolness''"
    by blast
  from a l t2 t3 m n show ?thesis by simp
qed

text \<open>
  C1 as stated fails: the diff that authorizes the write is computed on the incoming
  data before the existing fields are merged onto it. A caller whose write mask covers
  \<^verbatim>\<open>id\<close> and \<^verbatim>\<open>animalType\<close> replaces a document that has a private
  \<^verbatim>\<open>ssn\<close>; on the merged data the check would pass, but the put is denied for
  \<^verbatim>\<open>writeMask.ssn\<close>.
\<close>

theorem put_charges_omitted_private_field:
  "put flat_libs animal_wrapper
      (putting partialWrite (JObj [(''id'', JStr ''biz''), (''animalType'', JStr ''frog'')])) [biz]
     = (Inl (XError ACCESS_DENIED ''writeMask.ssn''), [biz])
   \<and> put_merge flat_libs animal_wrapper
        (preprocessed partialWrite
           (putting partialWrite (JObj [(''id'', JStr ''biz''), (''animalType'', JStr ''frog'')])))
        biz (JObj [(''id'', JStr ''biz''), (''animalType'', JStr ''frog'')])
     = JObj [(''id'', JStr ''biz''), (''animalType'', JStr ''frog''),
             (''ssn'', JStr ''123-123-1234'')]
   \<and> checkDiffPermissions flat_libs animal_wrapper partialWrite biz
        (JObj [(''id'', JStr ''biz''), (''animalType'', JStr ''frog''),
               (''ssn'', JStr ''123-123-1234'')]) False
     = Inr ()
   \<and> checkDiffPermissions flat_libs animal_wrapper partialWrite biz
        (JObj [(''id'', JStr ''biz''), (''animalType'', JStr ''frog'')]) False
     = Inl (XError ACCESS_DENIED ''writeMask.ssn'')"
  by (simp add: put_defs perm_defs io_defs fake_defs flat_defs Let_def)

text \<open>
  C1, amended. In put, when an existing document is found by key, the diff used for
  write authorization is computed between the existing document and the incoming data
  as stripped, before any merge, and a failure of that authorization rejects the call.
  When overwriteProtected is not set the protected field paths are removed from the
  diff's field list, so the caller is not charged for them. After the authorization
  has passed, the existing document's private fields (when allowPrivateFields is not
  set) and protected fields (when overwriteProtected is not set) are merged onto the
  incoming data, and the merged data is what replaces the document, so a caller who
  omits those fields does not erase them.
\<close>

theorem put_authorizes_then_merges:
  assumes reach: "put_begin L W params0 = Inr (p, dat, keys)"
    and found: "findOne (model W) (JObj keys) w = (Inr d, w')"
    and perms: "permissions p = Some perms"
  shows "(\<forall>e. checkDiffPermissions L W perms d dat (overwriteProtected p) = Inl e
              \<and> err_code e \<noteq> NOT_FOUND
           \<longrightarrow> put L W params0 w = (Inl e, w'))
       \<and> (checkDiffPermissions L W perms d dat (overwriteProtected p) = Inr ()
            \<and> createUpdate L (put_merge L W p d dat) True = Inr u \<and> isFullReplace L u
            \<and> apply_update L u True (data d) = Inr nd
            \<and> save (model W) (d\<lparr>data := nd\<rparr>) w' = (Inr saved, w'')
           \<longrightarrow> put L W params0 w = (Inr (put_result L W keys saved), w''))
       \<and> (hasPrivateFields W \<and> \<not> allowPrivateFields p
            \<and> hasProtectedFields W \<and> \<not> overwriteProtected p
           \<longrightarrow> put_merge L W p d dat
               = merge L (merge L dat (or_empty (filterObject L (privateMask W) (data d))))
                   (or_empty (filterObject L (protectedMask W) (data d))))
       \<and> (hasProtectedFields W \<and> \<not> overwriteProtected p
            \<and> (\<forall>f \<in> set (protectedFields W). getPath L dat f = JUndefined)
            \<and> getTargetGrant L perms (permissionsTarget W) dat = Inr g
            \<and> createFromDiff L (data d) dat = Inr patch
            \<and> createUpdate L patch False = Inr du
           \<longrightarrow> checkDiffPermissions L W perms d dat (overwriteProtected p)
               = rthen (check_key L g ''write'') (\<lambda>x.
                   check_fields L g
                     (filter (\<lambda>f. f \<notin> set (protectedFields W))
                        (removeAll ''_id'' (getUpdatedFields L du)))
                     ''writeMask.''))"
proof (intro conjI allI impI)
  fix e
  assume "checkDiffPermissions L W perms d dat (overwriteProtected p) = Inl e
              \<and> err_code e \<noteq> NOT_FOUND"
  then have "put_found L W p d dat = (Inl e, dat)" "err_code e \<noteq> NOT_FOUND"
    using perms by (simp_all add: put_found_def)
  then have "put_store L W p dat keys w = (Inl e, w')"
    using found by (simp add: put_store_found put_not_found_def)
  then show "put L W params0 w = (Inl e, w')"
    using reach by (simp add: put_reaches_store)
next
  assume h: "checkDiffPermissions L W perms d dat (overwriteProtected p) = Inr ()
            \<and> createUpdate L (put_merge L W p d dat) True = Inr u \<and> isFullReplace L u
            \<and> apply_update L u True (data d) = Inr nd
            \<and> save (model W) (d\<lparr>data := nd\<rparr>) w' = (Inr saved, w'')"
  then have "put_found L W p d dat = (Inr (d\<lparr>data := nd\<rparr>), put_merge L W p d dat)"
    using perms by (simp add: put_found_def Let_def rthen_def)
  then have "put_store L W p dat keys w = (Inr saved, w'')"
    using found h by (simp add: put_store_found)
  then show "put L W params0 w = (Inr (put_result L W keys saved), w'')"
    using reach by (simp add: put_reaches_store)
next
  assume "hasPrivateFields W \<and> \<not> allowPrivateFields p
            \<and> hasProtectedFields W \<and> \<not> overwriteProtected p"
  then show "put_merge L W p d dat
               = merge L (merge L dat (or_empty (filterObject L (privateMask W) (data d))))
                   (or_empty (filterObject L (protectedMask W) (data d)))"
    by (simp add: put_merge_def)
next
  assume h: "hasProtectedFields W \<and> \<not> overwriteProtected p
            \<and> (\<forall>f \<in> set (protectedFields W). getPath L dat f = JUndefined)
            \<and> getTargetGrant L perms (permissionsTarget W) dat = Inr g
            \<and> createFromDiff L (data d) dat = Inr patch
            \<and> createUpdate L patch False = Inr du"
  then have h1: "\<not> overwriteProtected p" and h2: "hasProtectedFields W"
    and h3: "\<forall>f \<in> set (protectedFields W). getPath L dat f = JUndefined"
    and h4: "getTargetGrant L perms (permissionsTarget W) dat = Inr g"
    and h5: "createFromDiff L (data d) dat = Inr patch"
    and h6: "createUpdate L patch False = Inr du"
    by blast+
  show "checkDiffPermissions L W perms d dat (overwriteProtected p)
               = rthen (check_key L g ''write'') (\<lambda>x.
                   check_fields L g
                     (filter (\<lambda>f. f \<notin> set (protectedFields W))
                        (removeAll ''_id'' (getUpdatedFields L du)))
                     ''writeMask.'')"
    using h1 h2 h3 h4 h5 h6 by (rule checkDiff_new_document)
qed

theorem put_authorizes_then_merges_witness:
  "put_begin flat_libs animal_wrapper
      (putting everything
         (JObj [(''id'', JStr ''asdf''), (''animalType'', JStr ''frog''), (''age'', JNum 6)]))
     = Inr (preprocessed everything
              (putting everything
                 (JObj [(''id'', JStr ''asdf''), (''animalType'', JStr ''frog''), (''age'', JNum 6)])),
            JObj [(''id'', JStr ''asdf''), (''animalType'', JStr ''frog''), (''age'', JNum 6)],
            [(''id'', JStr ''asdf'')])
   \<and> findOne (model animal_wrapper) (JObj [(''id'', JStr ''asdf'')]) [asdf] = (Inr asdf, [asdf])
   \<and> put flat_libs animal_wrapper
        (putting everything
           (JObj [(''id'', JStr ''asdf''), (''animalType'', JStr ''frog''), (''age'', JNum 6)]))
        [asdf]
     = (Inr (JObj [(''keys'', JObj [(''id'', JStr ''asdf'')])]),
        [\<lparr>handle = 7,
          data = JObj [(''id'', JStr ''asdf''), (''animalType'', JStr ''frog''), (''age'', JNum 6),
                       (''ssn'', JStr ''456-456-4567''), (''coolness'', JNum 4)]\<rparr>])"
proof -
  let ?dat = "JObj [(''id'', JStr ''asdf''), (''animalType'', JStr ''frog''), (''age'', JNum 6)]"
  let ?p = "preprocessed everything (putting everything ?dat)"
  let ?merged = "JObj [(''id'', JStr ''asdf''), (''animalType'', JStr ''frog''), (''age'', JNum 6),
                       (''ssn'', JStr ''456-456-4567''), (''coolness'', JNum 4)]"
  let ?new = "\<lparr>handle = 7, data = ?merged\<rparr>"
  have a: "put_begin flat_libs animal_wrapper (putting everything ?dat)
           = Inr (?p, ?dat, [(''id'', JStr ''asdf'')])"
    by (simp add: put_defs perm_defs io_defs fake_defs flat_defs)
  have b: "findOne (model animal_wrapper) (JObj [(''id'', JStr ''asdf'')]) [asdf] = (Inr asdf, [asdf])"
    by (simp add: fake_defs flat_defs)
  have c: "permissions ?p = Some everything"
    by (simp add: fake_defs)
  have d: "checkDiffPermissions flat_libs animal_wrapper everything asdf ?dat (overwriteProtected ?p)
           = Inr ()"
    by (simp add: put_defs perm_defs io_defs fake_defs flat_defs)
  have e: "createUpdate flat_libs (put_merge flat_libs animal_wrapper ?p asdf ?dat) True = Inr ?merged"
    by (simp add: put_defs io_defs fake_defs flat_defs)
  have f: "isFullReplace flat_libs ?merged"
    by (simp add: flat_defs)
  have g: "apply_update flat_libs ?merged True (data asdf) = Inr ?merged"
    by (simp add: flat_defs)
  have h: "save (model animal_wrapper) (asdf\<lparr>data := ?merged\<rparr>) [asdf] = (Inr ?new, [?new])"
    by (simp add: fake_defs)
  have m: "put_result flat_libs animal_wrapper [(''id'', JStr ''asdf'')] ?new
           = JObj [(''keys'', JObj [(''id'', JStr ''asdf'')])]"
    by (simp add: put_defs fake_defs flat_defs)
  from put_authorizes_then_merges [OF a b c, THEN conjunct2, THEN conjunct1] d e f g h
  have "put flat_libs animal_wrapper (putting everything ?dat) [asdf]
        = (Inr (put_result flat_libs animal_wrapper [(''id'', JStr ''asdf'')] ?new), [?new])"
    by blast
  with a b m show ?thesis by simp
qed

section \<open>The masks derived by the constructor\<close>

text \<open>
  Facts of the mask operations: what subtraction and adding a path do to the paths a
  mask includes.
\<close>


lemma map_of_map_val:
  "map_of (map (\<lambda>km. (fst km, f (snd km))) xs) k = map_option f (map_of xs k)"
  by (induction xs) auto

lemma map_of_map_keyed:
  "map_of (map (\<lambda>km. (fst km, F (fst km) (snd km))) xs) k = map_option (F k) (map_of xs k)"
  by (induction xs) auto

lemma map_of_map_filter:
  "map_of (map (\<lambda>km. (fst km, f (snd km))) (filter (\<lambda>km. fst km \<notin> K) xs)) k
   = (if k \<in> K then None else map_option f (map_of xs k))"
  by (induction xs) auto

lemma map_of_alist_set:
  "map_of (alist_set k v kvs) k' = (if k' = k then Some v else map_of kvs k')"
  by (induction kvs) auto

lemma mask_child_append:
  "mask_child (xs @ ys) d k
   = (case map_of xs k of Some m \<Rightarrow> m | None \<Rightarrow> mask_child ys d k)"
  by (simp add: mask_child_def map_add_def split: option.splits)

lemma subtract_lookup:
  "mask_child
     (map (\<lambda>km. (fst km, subtractMasks (mask_child kvs' d' (fst km)) (snd km))) kvs
      @ map (\<lambda>km. (fst km, subtractMasks (snd km) d))
          (filter (\<lambda>km. fst km \<notin> fst ` set kvs) kvs'))
     (subtractMasks d' d) k
   = (case map_of kvs k of
        Some m \<Rightarrow> subtractMasks (mask_child kvs' d' k) m
      | None \<Rightarrow> (case map_of kvs' k of
                   Some m' \<Rightarrow> subtractMasks m' d
                 | None \<Rightarrow> subtractMasks d' d))"
proof -
  have a: "map_of (map (\<lambda>km. (fst km, subtractMasks (mask_child kvs' d' (fst km)) (snd km))) kvs) k
           = map_option (subtractMasks (mask_child kvs' d' k)) (map_of kvs k)"
    by (rule map_of_map_keyed [where F = "\<lambda>k. subtractMasks (mask_child kvs' d' k)"])
  have b: "map_of (map (\<lambda>km. (fst km, subtractMasks (snd km) d))
                    (filter (\<lambda>km. fst km \<notin> fst ` set kvs) kvs')) k
           = (if k \<in> fst ` set kvs then None
              else map_option (\<lambda>m. subtractMasks m d) (map_of kvs' k))"
    by (rule map_of_map_filter [where f = "\<lambda>m. subtractMasks m d"])
  show ?thesis
  proof (cases "map_of kvs k")
    case (Some m)
    then show ?thesis by (simp add: mask_child_append a)
  next
    case None
    then have kn: "k \<notin> fst ` set kvs" by (simp add: map_of_eq_None_iff)
    have "mask_child (map (\<lambda>km. (fst km, subtractMasks (snd km) d))
                       (filter (\<lambda>km. fst km \<notin> fst ` set kvs) kvs'))
            (subtractMasks d' d) k
          = (case map_of kvs' k of
               Some m' \<Rightarrow> subtractMasks m' d
             | None \<Rightarrow> subtractMasks d' d)"
      unfolding mask_child_def b using kn by (cases "map_of kvs' k") simp_all
    then show ?thesis using None by (simp add: mask_child_append a)
  qed
qed

lemma subtract_excludes:
  "includes_path (subtractMasks a b) p \<Longrightarrow> includes_path a p \<and> \<not> includes_path b p"
proof (induction a b arbitrary: p rule: subtractMasks.induct)
  case (1 a)
  then show ?case by simp
next
  case (2 a)
  then show ?case by simp
next
  case (3 kvs d)
  then show ?case by simp
next
  case (4 kvs d)
  show ?case
  proof (cases p)
    case Nil
    then show ?thesis using "4.prems" by simp
  next
    case (Cons k ks)
    have look: "mask_child (map (\<lambda>km. (fst km, subtractMasks Included (snd km))) kvs)
                  (subtractMasks Included d) k
                = subtractMasks Included (mask_child kvs d k)"
      using map_of_map_val [where f = "subtractMasks Included" and xs = kvs and k = k]
      by (cases "map_of kvs k") (simp_all add: mask_child_def)
    have inc: "includes_path (subtractMasks Included (mask_child kvs d k)) ks"
      using "4.prems" Cons look by simp
    show ?thesis
    proof (cases "map_of kvs k")
      case None
      then have "mask_child kvs d k = d" by (simp add: mask_child_def)
      then show ?thesis using inc Cons "4.IH"(2) [of ks] by simp
    next
      case (Some m)
      then have "(k, m) \<in> set kvs" by (rule map_of_SomeD)
      moreover have "mask_child kvs d k = m" using Some by (simp add: mask_child_def)
      ultimately show ?thesis using inc Cons "4.IH"(1) [of "(k, m)" ks] by simp
    qed
  qed
next
  case (5 kvs' d' kvs d)
  show ?case
  proof (cases p)
    case Nil
    then show ?thesis using "5.prems" by simp
  next
    case (Cons k ks)
    note look = subtract_lookup [of kvs' d' kvs d k]
    have inc: "includes_path
                 (case map_of kvs k of
                    Some m \<Rightarrow> subtractMasks (mask_child kvs' d' k) m
                  | None \<Rightarrow> (case map_of kvs' k of
                               Some m' \<Rightarrow> subtractMasks m' d
                             | None \<Rightarrow> subtractMasks d' d)) ks"
      using "5.prems" Cons look by simp
    show ?thesis
    proof (cases "map_of kvs k")
      case (Some m)
      then have "(k, m) \<in> set kvs" by (rule map_of_SomeD)
      moreover have "mask_child kvs d k = m" using Some by (simp add: mask_child_def)
      ultimately show ?thesis using inc Cons Some "5.IH"(1) [of "(k, m)" ks] by simp
    next
      case None
      then have dk: "mask_child kvs d k = d" by (simp add: mask_child_def)
      show ?thesis
      proof (cases "map_of kvs' k")
        case (Some m')
        then have "(k, m') \<in> set kvs'" by (rule map_of_SomeD)
        moreover have "k \<notin> fst ` set kvs" using None by (simp add: map_of_eq_None_iff)
        ultimately have "(k, m') \<in> set (filter (\<lambda>km. fst km \<notin> fst ` set kvs) kvs')"
          by simp
        moreover have "mask_child kvs' d' k = m'" using Some by (simp add: mask_child_def)
        ultimately show ?thesis
          using inc Cons None Some dk "5.IH"(2) [of "(k, m')" ks] by simp
      next
        case None2: None
        then have "mask_child kvs' d' k = d'" by (simp add: mask_child_def)
        then show ?thesis using inc Cons None None2 dk "5.IH"(3) [of ks] by simp
      qed
    qed
  qed
qed

lemma add_path_includes:
  "includes_path (add_path m q) p = (includes_path m p \<or> prefix q p)"
proof (induction m q arbitrary: p rule: add_path.induct)
  case (1 p')
  then show ?case by simp
next
  case 2
  then show ?case by simp
next
  case (3 kvs d)
  then show ?case by simp
next
  case (4 k ks)
  then show ?case by (cases p) (auto simp: mask_child_def)
next
  case (5 kvs d k ks)
  then show ?case by (cases p) (auto simp: mask_child_def map_of_alist_set)
qed


lemma nothing_included: "\<not> includes_path (Partial [] Excluded) p"
  by (cases p) (simp_all add: mask_child_def)

lemma onSubschema_agree:
  assumes "\<And>p. includes_path (c_protectedMask c) p
                = (\<exists>q \<in> set (c_protectedFields c). prefix (split_dots q) p)"
  shows "includes_path (c_protectedMask (onSubschema c ps)) p
         = (\<exists>q \<in> set (c_protectedFields (onSubschema c ps)). prefix (split_dots q) p)"
  using assms
  by (auto simp: onSubschema_def Let_def addField_def add_path_includes)

lemma foldl_agree:
  assumes "\<And>p. includes_path (c_protectedMask c) p
                = (\<exists>q \<in> set (c_protectedFields c). prefix (split_dots q) p)"
  shows "includes_path (c_protectedMask (foldl onSubschema c sch)) p
         = (\<exists>q \<in> set (c_protectedFields (foldl onSubschema c sch)). prefix (split_dots q) p)"
  using assms
proof (induction sch arbitrary: c p)
  case Nil
  then show ?case by simp
next
  case (Cons ps sch)
  show ?case
    unfolding foldl_Cons
    by (rule Cons.IH) (rule onSubschema_agree, rule Cons.prems)
qed

lemma classify_agree:
  "includes_path (c_protectedMask (classify sch)) p
   = (\<exists>q \<in> set (c_protectedFields (classify sch)). prefix (split_dots q) p)"
  unfolding classify_def
  by (rule foldl_agree) (simp add: nothing_included)

lemma foldl_protectedFields:
  "c_protectedFields (foldl onSubschema c sch)
   = c_protectedFields c @ map fst (filter (\<lambda>ps. is_protected (snd ps)) sch)"
  by (induction sch arbitrary: c) (simp_all add: onSubschema_def Let_def)

lemma classify_protectedFields:
  "c_protectedFields (classify sch) = map fst (filter (\<lambda>ps. is_protected (snd ps)) sch)"
  by (simp add: classify_def foldl_protectedFields)

lemma foldl_privateMask:
  "includes_path (c_privateMask (foldl onSubschema c sch)) p
   = (includes_path (c_privateMask c) p
      \<or> (\<exists>ps \<in> set sch. is_private (snd ps) \<and> prefix (split_dots (fst ps)) p))"
proof (induction sch arbitrary: c)
  case Nil
  then show ?case by simp
next
  case (Cons ps sch)
  have step: "includes_path (c_privateMask (onSubschema c ps)) p
              = (includes_path (c_privateMask c) p
                 \<or> (is_private (snd ps) \<and> prefix (split_dots (fst ps)) p))"
    by (simp add: onSubschema_def Let_def addField_def add_path_includes)
  show ?case
    unfolding foldl_Cons Cons.IH step by auto
qed

lemma classify_privateMask:
  "includes_path (c_privateMask (classify sch)) p
   = (\<exists>ps \<in> set sch. is_private (snd ps) \<and> prefix (split_dots (fst ps)) p)"
  by (simp add: classify_def foldl_privateMask nothing_included)

lemma new_wrapper_masks:
  assumes "new_wrapper L opts = Inr W"
  shows "publicMask W
           = subtractMasks (Partial [] Included)
               (c_privateMask (classify (model_schema (o_model opts))))"
    and "privateMask W = c_privateMask (classify (model_schema (o_model opts)))"
    and "protectedMask W = c_protectedMask (classify (model_schema (o_model opts)))"
    and "protectedFields W = c_protectedFields (classify (model_schema (o_model opts)))"
  using assms
  by (auto simp: new_wrapper_def Let_def split: option.splits if_splits)

text \<open>
  C8 as stated fails in its second half. The spec says that \<^verbatim>\<open>protectedFields\<close> lists
  exactly the paths the protected mask includes. For a model whose object field
  \<^verbatim>\<open>home\<close> is protected, with an unflagged field \<^verbatim>\<open>zip\<close> below it, the
  constructor derives the mask \<^verbatim>\<open>{ home: true }\<close> and the list \<^verbatim>\<open>[ 'home' ]\<close>: the
  mask includes \<^verbatim>\<open>home.zip\<close>, which is not in the list.
\<close>

theorem protected_mask_includes_more_than_the_list:
  "new_wrapper flat_libs house_options = Inr house_wrapper
   \<and> protectedFields house_wrapper = [''home'']
   \<and> protectedMask house_wrapper = Partial [(''home'', Included)] Excluded
   \<and> checkPath (protectedMask house_wrapper) ''home.zip''
   \<and> ''home.zip'' \<notin> set (protectedFields house_wrapper)"
  by (simp add: new_wrapper_def classify_def onSubschema_def addField_def
      Let_def flat_defs fake_defs)

text \<open>
  C8, amended. For every wrapper the constructor builds: the public mask is the
  universal mask minus the private mask, and no path is included by both; the private
  mask includes a path exactly when the schema flags that path or an ancestor of it
  private; \<^verbatim>\<open>protectedFields\<close> lists the schema's paths flagged protected, in the order
  of the traversal; and the protected mask includes a path exactly when some entry of
  \<^verbatim>\<open>protectedFields\<close> is that path or an ancestor of it (a prefix of its dot-separated
  components). So the mask includes every listed path and also every path below a
  listed one, listed or not.
\<close>

theorem classified_masks:
  assumes "new_wrapper L opts = Inr W"
  shows "publicMask W = subtractMasks (Partial [] Included) (privateMask W)
       \<and> (\<forall>path. \<not> (checkPath (publicMask W) path \<and> checkPath (privateMask W) path))
       \<and> (\<forall>path. checkPath (privateMask W) path
                 = (\<exists>ps \<in> set (model_schema (o_model opts)).
                      is_private (snd ps) \<and> prefix (split_dots (fst ps)) (split_dots path)))
       \<and> protectedFields W
           = map fst (filter (\<lambda>ps. is_protected (snd ps)) (model_schema (o_model opts)))
       \<and> (\<forall>path. checkPath (protectedMask W) path
                 = (\<exists>q \<in> set (protectedFields W). prefix (split_dots q) (split_dots path)))"
proof (intro conjI allI)
  show "publicMask W = subtractMasks (Partial [] Included) (privateMask W)"
    by (simp add: new_wrapper_masks [OF assms])
  show "protectedFields W
        = map fst (filter (\<lambda>ps. is_protected (snd ps)) (model_schema (o_model opts)))"
    by (simp add: new_wrapper_masks [OF assms] classify_protectedFields)
next
  fix path
  show "\<not> (checkPath (publicMask W) path \<and> checkPath (privateMask W) path)"
    using subtract_excludes [of "Partial [] Included" "privateMask W" "split_dots path"]
    by (auto simp: checkPath_def new_wrapper_masks [OF assms])
  show "checkPath (privateMask W) path
        = (\<exists>ps \<in> set (model_schema (o_model opts)).
             is_private (snd ps) \<and> prefix (split_dots (fst ps)) (split_dots path))"
    by (simp add: checkPath_def classify_privateMask new_wrapper_masks [OF assms])
  show "checkPath (protectedMask W) path
        = (\<exists>q \<in> set (protectedFields W). prefix (split_dots q) (split_dots path))"
    by (simp add: checkPath_def classify_agree new_wrapper_masks [OF assms])
qed

theorem classified_masks_witness:
  "new_wrapper flat_libs animal_options = Inr animal_wrapper
   \<and> checkPath (privateMask animal_wrapper) ''ssn''
   \<and> \<not> checkPath (publicMask animal_wrapper) ''ssn''
   \<and> protectedFields animal_wrapper = [''coolness'', ''favNumber'']
   \<and> checkPath (protectedMask animal_wrapper) ''coolness''
   \<and> \<not> checkPath (protectedMask animal_wrapper) ''age''"
proof -
  note t = classified_masks [OF animal_wrapper_built]
  have sch: "model_schema (o_model animal_options) = animal_schema"
    by (simp add: animal_options_def fake_defs)
  have flagged: "map fst (filter (\<lambda>ps. is_protected (snd ps)) animal_schema)
                 = [''coolness'', ''favNumber'']"
    by (simp add: fake_defs)
  from t sch flagged have b: "protectedFields animal_wrapper = [''coolness'', ''favNumber'']"
    by simp
  have hidden: "\<exists>ps \<in> set animal_schema.
                   is_private (snd ps) \<and> prefix (split_dots (fst ps)) (split_dots ''ssn'')"
    by (simp add: fake_defs)
  from t sch hidden have a: "checkPath (privateMask animal_wrapper) ''ssn''"
    by simp
  from t a have c: "\<not> checkPath (publicMask animal_wrapper) ''ssn''" by blast
  have "prefix (split_dots ''coolness'') (split_dots ''coolness'')"
    by simp
  with t b have d: "checkPath (protectedMask animal_wrapper) ''coolness''"
    by auto
  have "\<not> (\<exists>q \<in> set [''coolness'', ''favNumber'']. prefix (split_dots q) (split_dots ''age''))"
    by simp
  with t b have e: "\<not> checkPath (protectedMask animal_wrapper) ''age''"
    by simp
  from animal_wrapper_built a b c d e show ?thesis by blast
qed

end
